theory Spec2Isabelle
  imports Main "HOL-Library.Monad_Syntax"
begin

section \<open>JavaScript strings\<close>

text \<open>
  The client is \<^verbatim>\<open>src/static/script.js\<close>. A JavaScript string is modelled as a
  \<^typ>\<open>string\<close>, a list of code units below 256 (the Latin-1 range). Of the code units
  that \<^verbatim>\<open>String.prototype.trim\<close> strips (ECMAScript WhiteSpace and LineTerminator),
  those of this range are TAB, LF, VT, FF, CR, SPACE and NBSP.
\<close>

definition is_ws :: "char \<Rightarrow> bool" where
  "is_ws c = (c \<in> set [CHR 0x09, CHR 0x0A, CHR 0x0B, CHR 0x0C, CHR 0x0D, CHR 0x20, CHR 0xA0])"

text \<open>\<^verbatim>\<open>s.trim()\<close>: white space removed from both ends.\<close>

definition trim :: "string \<Rightarrow> string" where
  "trim s = rev (dropWhile is_ws (rev (dropWhile is_ws s)))"

text \<open>
  \<^verbatim>\<open>s.split(sep)\<close> for a separator of one code unit: the pieces between the
  occurrences of the separator; a string without the separator (the empty string too) is
  its own single piece.
\<close>

fun split_on :: "char \<Rightarrow> string \<Rightarrow> string list" where
  "split_on sep [] = [[]]"
| "split_on sep (c # cs) =
     (if c = sep then [] # split_on sep cs
      else (case split_on sep cs of
              [] \<Rightarrow> [[c]]
            | piece # pieces \<Rightarrow> (c # piece) # pieces))"

text \<open>
  \<^verbatim>\<open>s.split(/\r?\n/)\<close>: the separator is LF, or CR immediately followed by LF; a CR
  that no LF follows is an ordinary code unit of its piece.
\<close>

fun split_lines :: "string \<Rightarrow> string list" where
  "split_lines [] = [[]]"
| "split_lines (c # cs) =
     (if c = CHR 0x0D \<and> cs \<noteq> [] \<and> hd cs = CHR 0x0A then [] # split_lines (tl cs)
      else if c = CHR 0x0A then [] # split_lines cs
      else (case split_lines cs of
              [] \<Rightarrow> [[c]]
            | piece # pieces \<Rightarrow> (c # piece) # pieces))"

text \<open>\<^verbatim>\<open>pieces.join(sep)\<close> for a separator of one code unit.\<close>

fun join :: "char \<Rightarrow> string list \<Rightarrow> string" where
  "join sep [] = []"
| "join sep [piece] = piece"
| "join sep (piece # pieces) = piece @ sep # join sep pieces"

text \<open>
  \<^verbatim>\<open>value.split(/\r?\n/).map(line => line.trim()).filter(Boolean)\<close>, the
  pipeline that \<^verbatim>\<open>plan\<close> applies to each of its three text areas: the trimmed lines
  that are not empty, in order.
\<close>

definition surviving_lines :: "string \<Rightarrow> string list" where
  "surviving_lines text = filter (\<lambda>line. line \<noteq> []) (map trim (split_lines text))"

section \<open>Errors and objects\<close>

text \<open>
  An exception is a value: \<^verbatim>\<open>new Error(message)\<close> thrown by the script, or a
  \<^verbatim>\<open>TypeError\<close> or \<^verbatim>\<open>SyntaxError\<close> raised by the engine, each with its
  message. The messages of the engine's own errors are engine-specific; the ones below are
  V8's, and no theorem depends on their wording.
\<close>

datatype js_error = Error string | TypeError string | SyntaxError string

fun message :: "js_error \<Rightarrow> string" where
  "message (Error m) = m"
| "message (TypeError m) = m"
| "message (SyntaxError m) = m"

definition not_a_function :: js_error where
  "not_a_function = TypeError ''(intermediate value).push is not a function''"

definition null_routes :: js_error where
  "null_routes = TypeError ''Cannot read properties of null (reading 'routes')''"

definition undefined_map_path :: js_error where
  "undefined_map_path = TypeError ''Cannot read properties of undefined (reading 'map_path')''"

text \<open>
  An object literal \<^verbatim>\<open>{}\<close> is a map of its own properties; it inherits from
  \<^verbatim>\<open>Object.prototype\<close>, whose property names in a browser are the ones below.
  Reading an inherited name that is not an own property gives the inherited value, which is
  a function, or for \<^verbatim>\<open>__proto__\<close> the prototype object; none is nullish and
  none has a \<^verbatim>\<open>push\<close> method. Assigning a string to \<^verbatim>\<open>__proto__\<close> runs the
  inherited setter, which ignores a value that is not an object, so no own property
  appears; assigning to any other name creates or overwrites the own property.
\<close>

definition object_prototype_keys :: "string list" where
  "object_prototype_keys =
     [''constructor'', ''__defineGetter__'', ''__defineSetter__'', ''hasOwnProperty'',
      ''__lookupGetter__'', ''__lookupSetter__'', ''isPrototypeOf'',
      ''propertyIsEnumerable'', ''toString'', ''valueOf'', ''__proto__'',
      ''toLocaleString'']"

definition set_property :: "string \<Rightarrow> 'v \<Rightarrow> (string \<rightharpoonup> 'v) \<Rightarrow> (string \<rightharpoonup> 'v)" where
  "set_property key v obj = (if key = ''__proto__'' then obj else obj(key \<mapsto> v))"

section \<open>Parsing the text areas (\<^verbatim>\<open>plan\<close>, lines 111 to 144)\<close>

text \<open>\<^verbatim>\<open>(mandatory[day] ??= []).push(place)\<close>\<close>

definition push_place ::
  "string \<Rightarrow> string \<Rightarrow> (string \<rightharpoonup> string list) \<Rightarrow> js_error + (string \<rightharpoonup> string list)" where
  "push_place day place mandatory =
     (case mandatory day of
        Some pushed \<Rightarrow> Inr (mandatory(day \<mapsto> pushed @ [place]))
      | None \<Rightarrow>
          if day \<in> set object_prototype_keys then Inl not_a_function
          else Inr (mandatory(day \<mapsto> [place])))"

text \<open>The inner \<^verbatim>\<open>forEach\<close> over \<^verbatim>\<open>places.split(',')\<close> (lines 126 to 132).\<close>

fun each_place ::
  "string \<Rightarrow> string list \<Rightarrow> (string \<rightharpoonup> string list) \<Rightarrow> js_error + (string \<rightharpoonup> string list)" where
  "each_place day [] mandatory = Inr mandatory"
| "each_place day (place # rest) mandatory =
     (if trim place \<noteq> []
      then (case push_place day (trim place) mandatory of
              Inl e \<Rightarrow> Inl e
            | Inr mandatory' \<Rightarrow> each_place day rest mandatory')
      else each_place day rest mandatory)"

text \<open>
  The body of the outer \<^verbatim>\<open>forEach\<close> (lines 124 to 132):
  \<^verbatim>\<open>const [day, places] = mandatoryLine.split('|')\<close> takes the first two pieces of the
  split, \<^verbatim>\<open>places\<close> being undefined when there is one piece only, and the line is
  skipped when either is falsy.
\<close>

definition mandatory_line ::
  "string \<Rightarrow> (string \<rightharpoonup> string list) \<Rightarrow> js_error + (string \<rightharpoonup> string list)" where
  "mandatory_line mandatoryLine mandatory =
     (case split_on CHR ''|'' mandatoryLine of
        day # places # _ \<Rightarrow>
          if day = [] \<or> places = [] then Inr mandatory
          else each_place day (split_on CHR '','' places) mandatory
      | _ \<Rightarrow> Inr mandatory)"

fun each_mandatory_line ::
  "string list \<Rightarrow> (string \<rightharpoonup> string list) \<Rightarrow> js_error + (string \<rightharpoonup> string list)" where
  "each_mandatory_line [] mandatory = Inr mandatory"
| "each_mandatory_line (mandatoryLine # rest) mandatory =
     (case mandatory_line mandatoryLine mandatory of
        Inl e \<Rightarrow> Inl e
      | Inr mandatory' \<Rightarrow> each_mandatory_line rest mandatory')"

text \<open>Lines 117 to 133: the \<^verbatim>\<open>mandatory\<close> object built from the text area.\<close>

definition parse_mandatory :: "string \<Rightarrow> js_error + (string \<rightharpoonup> string list)" where
  "parse_mandatory text = each_mandatory_line (surviving_lines text) Map.empty"

text \<open>
  The body of the \<^verbatim>\<open>forEach\<close> of lines 139 to 144:
  \<^verbatim>\<open>const [original, ...replacement] = altAdressesLine.split('|')\<close>, and the
  assignment when \<^verbatim>\<open>original\<close> is truthy.
\<close>

definition alt_line :: "string \<Rightarrow> (string \<rightharpoonup> string) \<Rightarrow> (string \<rightharpoonup> string)" where
  "alt_line altAdressesLine altAddresses =
     (case split_on CHR ''|'' altAdressesLine of
        [] \<Rightarrow> altAddresses
      | original # replacement \<Rightarrow>
          if original \<noteq> []
          then set_property (trim original) (trim (join CHR ''|'' replacement)) altAddresses
          else altAddresses)"

definition altAddresses_of_lines :: "string list \<Rightarrow> (string \<rightharpoonup> string)" where
  "altAddresses_of_lines altAdressesLines = fold alt_line altAdressesLines Map.empty"

text \<open>Lines 134 to 144: the \<^verbatim>\<open>altAddresses\<close> object built from the text area.\<close>

definition parse_altAddresses :: "string \<Rightarrow> (string \<rightharpoonup> string)" where
  "parse_altAddresses text = altAddresses_of_lines (surviving_lines text)"

section \<open>The mandatory-by-day rule in the words of the specification\<close>

text \<open>
  The rule of the specification, with the places part of a line as a parameter. A line
  is split at its first \<^verbatim>\<open>|\<close>: the day is the text before it. Lines whose day or
  places part is empty are skipped. The places part is split on commas, the tokens
  trimmed, the empty ones dropped. The list under a day is made of the tokens of the lines
  of that day, in the order of the lines; a day with no token has no list.
\<close>

definition before_first_bar :: "string \<Rightarrow> string" where
  "before_first_bar line = takeWhile (\<lambda>c. c \<noteq> CHR ''|'') line"

definition after_first_bar :: "string \<Rightarrow> string" where
  "after_first_bar line = tl (dropWhile (\<lambda>c. c \<noteq> CHR ''|'') line)"

definition tokens_of :: "string \<Rightarrow> string list" where
  "tokens_of placesPart = filter (\<lambda>token. token \<noteq> []) (map trim (split_on CHR '','' placesPart))"

definition tokens_under :: "(string \<Rightarrow> string) \<Rightarrow> string list \<Rightarrow> string \<Rightarrow> string list" where
  "tokens_under placesPart lines day =
     concat (map (\<lambda>line. tokens_of (placesPart line))
       (filter (\<lambda>line. before_first_bar line = day \<and> before_first_bar line \<noteq> [] \<and> placesPart line \<noteq> []) lines))"

definition grouped :: "(string \<Rightarrow> string) \<Rightarrow> string list \<Rightarrow> (string \<rightharpoonup> string list)" where
  "grouped placesPart lines =
     (\<lambda>day. if tokens_under placesPart lines day = [] then None
            else Some (tokens_under placesPart lines day))"

text \<open>
  As the specification words it: the places part is everything after the first
  \<^verbatim>\<open>|\<close>, later \<^verbatim>\<open>|\<close> characters included.
\<close>

definition spec_mandatory :: "string \<Rightarrow> (string \<rightharpoonup> string list)" where
  "spec_mandatory text = grouped after_first_bar (surviving_lines text)"

text \<open>
  The same rule with the places part ending at the second \<^verbatim>\<open>|\<close> of the line, when
  there is one.
\<close>

definition second_piece :: "string \<Rightarrow> string" where
  "second_piece line = takeWhile (\<lambda>c. c \<noteq> CHR ''|'') (after_first_bar line)"

definition two_piece_mandatory :: "string \<Rightarrow> (string \<rightharpoonup> string list)" where
  "two_piece_mandatory text = grouped second_piece (surviving_lines text)"

section \<open>Numbers as text\<close>

text \<open>
  The decimal digits of a natural number, and \<^verbatim>\<open>String(i)\<close> for an integer
  \<^verbatim>\<open>i\<close> (of magnitude below \<^verbatim>\<open>1e21\<close>, where JavaScript switches to the
  exponent notation).
\<close>

fun digits :: "nat \<Rightarrow> string" where
  "digits n =
     (if n < 10 then [''0123456789'' ! n]
      else digits (n div 10) @ [''0123456789'' ! (n mod 10)])"

declare digits.simps [simp del]

definition number_string :: "int \<Rightarrow> string" where
  "number_string i = (if i < 0 then CHR ''-'' # digits (nat (- i)) else digits (nat i))"

text \<open>
  \<^verbatim>\<open>(distance_m / 1000).toFixed(1)\<close> for a distance that is a natural number of
  meters below \<open>2 ^ 53\<close>, computed in integers. The quotient is an IEEE 754 double:
  the multiple \<open>m / 2 ^ k\<close> nearest to \<open>distance_m / 1000\<close>, ties to the even
  \<open>m\<close>, where \<open>k\<close> is the shift that brings a positive quotient into the 53 bit
  range \<open>2 ^ 52 \<le> m \<le> 2 ^ 53\<close>. \<^verbatim>\<open>toFixed(1)\<close> takes the integer \<open>n\<close>
  with \<open>n / 10\<close> nearest to that double, the larger one on a tie, and prints it with
  a point before its last digit.
\<close>

function scale_up :: "nat \<Rightarrow> nat \<Rightarrow> nat" where
  "scale_up lo x = (if x = 0 \<or> lo \<le> x then 0 else Suc (scale_up lo (2 * x)))"
  by pat_completeness auto
termination
  by (relation "measure (\<lambda>(lo, x). lo - x)") auto

declare scale_up.simps [simp del]

definition round_half_even :: "nat \<Rightarrow> nat \<Rightarrow> nat" where
  "round_half_even a b =
     (let q = a div b; r = a mod b
      in if 2 * r < b then q
         else if b < 2 * r then q + 1
         else if even q then q else q + 1)"

definition km_shift :: "nat \<Rightarrow> nat" where
  "km_shift distance_m = scale_up (1000 * 2 ^ 52) distance_m"

definition km_mantissa :: "nat \<Rightarrow> nat" where
  "km_mantissa distance_m = round_half_even (distance_m * 2 ^ km_shift distance_m) 1000"

definition km_tenths :: "nat \<Rightarrow> nat" where
  "km_tenths distance_m =
     (20 * km_mantissa distance_m + 2 ^ km_shift distance_m) div 2 ^ (km_shift distance_m + 1)"

definition km_toFixed1 :: "nat \<Rightarrow> string" where
  "km_toFixed1 distance_m =
     digits (km_tenths distance_m div 10) @ ''.'' @ digits (km_tenths distance_m mod 10)"

section \<open>The plan and the page\<close>

text \<open>
  A route of the response: \<^verbatim>\<open>day\<close> is \<open>None\<close> when null or absent, the distance a
  natural number of meters, the minutes an integer.
\<close>

record route_info =
  day :: "int option"
  places :: "string list"
  distance_m :: nat
  time_minutes :: int
  map_path :: string

record plan_response =
  routes :: "route_info list"

text \<open>
  The state the script reads and writes: the global \<^verbatim>\<open>lastPlan\<close>; the value of each
  form control by element id; \<^verbatim>\<open>localStorage\<close>; the entries of
  \<^verbatim>\<open>window.location.search\<close>; the markup inserted in the list region; whether the
  list region, the map region and the day selector carry the class \<^verbatim>\<open>hidden\<close>; the
  source of the map frame; the options of the day selector, each with the route index that
  is its value and its label, and the index of the selected one (\<open>None\<close> when no option
  is selected, where \<^verbatim>\<open>day.value\<close> reads as the empty string); whether the body
  carries the class \<^verbatim>\<open>dark\<close>; the query entries of the URL that \<^verbatim>\<open>share\<close>
  wrote to the clipboard; the messages shown by \<^verbatim>\<open>alert\<close>.
\<close>

record state =
  lastPlan :: "plan_response option"
  field :: "string \<Rightarrow> string"
  localStorage :: "string \<rightharpoonup> string"
  search :: "(string \<times> string) list"
  list_innerHTML :: string
  list_hidden :: bool
  map_hidden :: bool
  day_hidden :: bool
  mapFrame_src :: string
  day_options :: "(nat \<times> string) list"
  day_value :: "nat option"
  body_dark :: bool
  clipboard :: "(string \<times> string) list option"
  alerts :: "string list"

text \<open>\<^verbatim>\<open>info.day ? `Day ${info.day}` : 'Route'\<close>: a day that is null or 0 is falsy.\<close>

definition day_label :: "route_info \<Rightarrow> string" where
  "day_label info =
     (case day info of
        None \<Rightarrow> ''Route''
      | Some n \<Rightarrow> if n \<noteq> 0 then ''Day '' @ number_string n else ''Route'')"

text \<open>
  \<^verbatim>\<open>populateDays\<close> (lines 3 to 14). The selector shows one option at a time, so
  the first option appended to the emptied selector becomes the selected one.
\<close>

definition populateDays :: "plan_response \<Rightarrow> state \<Rightarrow> state" where
  "populateDays resp st =
     st\<lparr>day_options := map (\<lambda>(i, info). (i, day_label info)) (enumerate 0 (routes resp)),
        day_value := (if routes resp = [] then None else Some 0)\<rparr>"

text \<open>
  \<^verbatim>\<open>day.value = i\<close>: the option of that value becomes the selected one; no option is
  selected when none has that value.
\<close>

definition select_day :: "nat \<Rightarrow> state \<Rightarrow> state" where
  "select_day i st =
     st\<lparr>day_value := (if i \<in> set (map fst (day_options st)) then Some i else None)\<rparr>"

text \<open>
  The template literal of lines 22 to 26, with its line breaks and tabs. The markup is
  recorded as the script writes it, place names unescaped.
\<close>

definition route_block :: "route_info \<Rightarrow> string" where
  "route_block info =
     [CHR 0x0A, CHR 0x09, CHR 0x09, CHR 0x09] @ ''<h2>'' @ day_label info @ ''</h2>'' @
     [CHR 0x0A, CHR 0x09, CHR 0x09, CHR 0x09] @ ''<ol>'' @
       concat (map (\<lambda>place. ''<li>'' @ place @ ''</li>'') (places info)) @ ''</ol>'' @
     [CHR 0x0A, CHR 0x09, CHR 0x09, CHR 0x09] @ ''<p>'' @ km_toFixed1 (distance_m info) @
       '' km | '' @ number_string (time_minutes info) @ '' min</p>'' @
     [CHR 0x0A, CHR 0x09, CHR 0x09]"

text \<open>\<^verbatim>\<open>renderList\<close> (lines 16 to 28).\<close>

definition renderList :: "plan_response \<Rightarrow> state \<Rightarrow> state" where
  "renderList resp st =
     fold (\<lambda>info s. s\<lparr>list_innerHTML := list_innerHTML s @ route_block info\<rparr>)
       (routes resp) (st\<lparr>list_innerHTML := []\<rparr>)"

text \<open>
  \<^verbatim>\<open>showMap\<close> (lines 30 to 34). The index is a route index, or \<open>None\<close> for the
  empty string of a selector without selection. The frame is looked up first and assigned
  last, so an exception leaves its source as it was.
\<close>

definition showMap :: "nat option \<Rightarrow> state \<Rightarrow> js_error option \<times> state" where
  "showMap idx st =
     (case lastPlan st of
        None \<Rightarrow> (Some null_routes, st)
      | Some resp \<Rightarrow>
          (case idx of
             None \<Rightarrow> (Some undefined_map_path, st)
           | Some i \<Rightarrow>
               if i < length (routes resp)
               then (None, st\<lparr>mapFrame_src := map_path (routes resp ! i)\<rparr>)
               else (Some undefined_map_path, st)))"

text \<open>
  \<^verbatim>\<open>updateView\<close> of the first script (lines 36 to 50): line 43 reads
  \<^verbatim>\<open>lastPlan.routes\<close>, which throws when there is no last plan, before the three
  toggles and the test of line 47.
\<close>

definition updateView_gated :: "state \<Rightarrow> js_error option \<times> state" where
  "updateView_gated st =
     (let view = field st ''view'' in
      case lastPlan st of
        None \<Rightarrow> (Some null_routes, st)
      | Some resp \<Rightarrow>
          (let mandatory = list_ex (\<lambda>route. day route \<noteq> None) (routes resp);
               st1 = st\<lparr>list_hidden := (view \<noteq> ''list''),
                         map_hidden := (view \<noteq> ''map''),
                         day_hidden := (\<not> (view = ''map'' \<and> mandatory))\<rparr>
           in if lastPlan st1 = None then (None, st1)
              else if view = ''list'' then (None, renderList resp st1)
              else showMap (if mandatory then day_value st1 else Some 0) st1))"

text \<open>\<^verbatim>\<open>updateView\<close> of the second script (lines 239 to 252).\<close>

definition updateView_ungated :: "state \<Rightarrow> js_error option \<times> state" where
  "updateView_ungated st =
     (let view = field st ''view'';
          st1 = st\<lparr>list_hidden := (view \<noteq> ''list''),
                    map_hidden := (view \<noteq> ''map''),
                    day_hidden := (view \<noteq> ''map'')\<rparr>
      in case lastPlan st1 of
           None \<Rightarrow> (None, st1)
         | Some resp \<Rightarrow>
             if view = ''list'' then (None, renderList resp st1)
             else showMap (day_value st1) st1)"

datatype variant = Gated | Ungated

fun updateView :: "variant \<Rightarrow> state \<Rightarrow> js_error option \<times> state" where
  "updateView Gated st = updateView_gated st"
| "updateView Ungated st = updateView_ungated st"

section \<open>Restoring and sharing the form\<close>

text \<open>
  The query of a URL is the list of its name and value entries, as
  \<^verbatim>\<open>URLSearchParams\<close> holds it. \<^verbatim>\<open>get\<close> gives the value of the first entry of
  a name; \<^verbatim>\<open>set\<close> writes the value into the first entry of the name and removes
  its other entries, or appends an entry when the name has none. Writing a query into a
  URL and reading it back gives the same entries.
\<close>

definition usp_get :: "(string \<times> string) list \<Rightarrow> string \<Rightarrow> string option" where
  "usp_get params name = map_of params name"

fun usp_set :: "string \<Rightarrow> string \<Rightarrow> (string \<times> string) list \<Rightarrow> (string \<times> string) list" where
  "usp_set name v [] = [(name, v)]"
| "usp_set name v (entry # rest) =
     (if fst entry = name then (name, v) # filter (\<lambda>other. fst other \<noteq> name) rest
      else entry # usp_set name v rest)"

text \<open>
  \<^verbatim>\<open>setValue\<close> (lines 76 to 92), with the parameters read at line 73 and the
  flag \<^verbatim>\<open>hadParams\<close> of \<^verbatim>\<open>restoreForm\<close> passed along.
\<close>

definition setValue ::
  "(string \<times> string) list \<Rightarrow> string \<Rightarrow> state \<times> bool \<Rightarrow> state \<times> bool" where
  "setValue params ident acc =
     (case acc of (st, hadParams) \<Rightarrow>
        (case usp_get params ident of
           Some v \<Rightarrow>
             (st\<lparr>field := (field st)(ident := v),
                 localStorage := (localStorage st)(ident \<mapsto> v)\<rparr>, True)
         | None \<Rightarrow>
             (case localStorage st ident of
                Some v \<Rightarrow> (st\<lparr>field := (field st)(ident := v)\<rparr>, hadParams)
              | None \<Rightarrow> (st, hadParams))))"

text \<open>The six tracked fields, in the order of lines 93 to 98.\<close>

definition tracked :: "string list" where
  "tracked = [''home'', ''places'', ''mandatory'', ''altAddresses'', ''mode'', ''view'']"

text \<open>
  \<^verbatim>\<open>restoreForm\<close> (lines 71 to 104), which belongs to the first script and so
  calls its \<^verbatim>\<open>updateView\<close>; an exception of that call leaves line 103 unrun.
\<close>

definition restoreForm :: "state \<Rightarrow> js_error option \<times> state" where
  "restoreForm st =
     (let params = search st;
          (st1, hadParams) = fold (setValue params) tracked (st, False);
          theme = localStorage st1 ''theme'';
          st2 = st1\<lparr>body_dark := (theme = Some ''dark'')\<rparr>
      in case updateView_gated st2 of
           (Some e, st3) \<Rightarrow> (Some e, st3)
         | (None, st3) \<Rightarrow> (None, if hadParams then st3\<lparr>search := []\<rparr> else st3))"

text \<open>
  \<^verbatim>\<open>share\<close> (lines 181 to 199). Of the URL written to the clipboard the state
  keeps the query entries; its path and fragment are those of the page.
\<close>

definition share :: "state \<Rightarrow> state" where
  "share st =
     st\<lparr>clipboard := Some
       (usp_set ''view'' (field st ''view'')
         (usp_set ''mode'' (field st ''mode'')
           (usp_set ''altAddresses'' (field st ''altAddresses'')
             (usp_set ''mandatory'' (field st ''mandatory'')
               (usp_set ''places'' (field st ''places'')
                 (usp_set ''home'' (trim (field st ''home'')) (search st)))))))\<rparr>"

text \<open>
  Loading the client with the shared URL: a page whose query is the one on the clipboard,
  with whatever form defaults, storage and other state that page starts from.
\<close>

definition load_shared :: "state \<Rightarrow> state \<Rightarrow> state" where
  "load_shared sharer fresh =
     fresh\<lparr>search := (case clipboard (share sharer) of None \<Rightarrow> [] | Some entries \<Rightarrow> entries)\<rparr>"

section \<open>Planning (\<^verbatim>\<open>plan\<close>, lines 105 to 179)\<close>

record plan_request =
  home :: "string option"
  request_places :: "string list"
  mandatory_by_day :: "string \<rightharpoonup> string list"
  alt_addresses :: "string \<rightharpoonup> string"
  mode :: string

record payload =
  city_name :: string
  config :: plan_request

text \<open>
  Lines 111 to 156. The exception of the mandatory parser is thrown before the
  \<^verbatim>\<open>try\<close> block, so no payload is built then.
\<close>

definition build_payload :: "state \<Rightarrow> js_error + payload" where
  "build_payload st =
     (let home = trim (field st ''home'');
          places = surviving_lines (field st ''places'')
      in case parse_mandatory (field st ''mandatory'') of
           Inl e \<Rightarrow> Inl e
         | Inr mandatory \<Rightarrow>
             Inr \<lparr>city_name = ''custom'',
                  config = \<lparr>home = (if home = [] then None else Some home),
                            request_places = places,
                            mandatory_by_day = mandatory,
                            alt_addresses = parse_altAddresses (field st ''altAddresses''),
                            mode = field st ''mode''\<rparr>\<rparr>)"

text \<open>
  What the planning call gives back: \<^verbatim>\<open>fetch\<close> rejects with a message (no response
  at all); or the response is not ok and its body is a text; or it is ok and
  \<^verbatim>\<open>resp.json()\<close> rejects with a message; or it is ok and its body decodes to a plan
  response.
\<close>

datatype fetch_result =
    Rejected string
  | NotOk string
  | OkNotJson string
  | OkJson plan_response

text \<open>The \<^verbatim>\<open>try\<close> block (lines 159 to 173) for each result of the call.\<close>

definition try_plan :: "variant \<Rightarrow> fetch_result \<Rightarrow> state \<Rightarrow> js_error option \<times> state" where
  "try_plan v result st =
     (case result of
        Rejected m \<Rightarrow> (Some (TypeError m), st)
      | NotOk text \<Rightarrow> (Some (Error text), st)
      | OkNotJson m \<Rightarrow> (Some (SyntaxError m), st)
      | OkJson resp \<Rightarrow>
          updateView v (select_day 0 (populateDays resp (st\<lparr>lastPlan := Some resp\<rparr>))))"

text \<open>
  \<^verbatim>\<open>plan\<close>, the planning endpoint being a function from the payload to its result.
  The outcome is the exception that leaves the function if any; the one caught at line 175
  becomes an alert.
\<close>

definition plan :: "variant \<Rightarrow> (payload \<Rightarrow> fetch_result) \<Rightarrow> state \<Rightarrow> js_error option \<times> state" where
  "plan v fetch st0 =
     (let st = st0\<lparr>list_innerHTML := [], mapFrame_src := []\<rparr>
      in case build_payload st of
           Inl e \<Rightarrow> (Some e, st)
         | Inr request \<Rightarrow>
             (case try_plan v (fetch request) st of
                (Some e, st') \<Rightarrow>
                  (None, st'\<lparr>alerts := alerts st' @ [''Planning failed: '' @ message e]\<rparr>)
              | (None, st') \<Rightarrow> (None, st')))"

text \<open>
  A page before any plan: nothing stored, no query, empty fields, and the given value in
  the view selector.
\<close>

definition blank :: "string \<Rightarrow> state" where
  "blank view =
     \<lparr>lastPlan = None, field = (\<lambda>ident. [])(''view'' := view), localStorage = Map.empty,
      search = [], list_innerHTML = [], list_hidden = False, map_hidden = False,
      day_hidden = False, mapFrame_src = [], day_options = [], day_value = None,
      body_dark = False, clipboard = None, alerts = []\<rparr>"

text \<open>
  The user changing one of the four text controls or the travel mode: the control has the
  new value, and the listener of lines 61 to 67 stores it under the name of the control.
\<close>

definition edit :: "string \<Rightarrow> string \<Rightarrow> state \<Rightarrow> state" where
  "edit ident v st =
     st\<lparr>field := (field st)(ident := v), localStorage := (localStorage st)(ident \<mapsto> v)\<rparr>"

text \<open>
  Three plan responses: two routes of day 1 and day 2; one route without a day; no route
  at all. And the page right after lines 169 to 172 of a successful planning call, before
  its \<^verbatim>\<open>updateView\<close>: the response is the last plan, the selector holds one option
  per route and has the one of value 0 selected, if there is one.
\<close>

definition two_day_plan :: plan_response where
  "two_day_plan =
     \<lparr>routes =
        [\<lparr>day = Some 1, places = [''Louvre'', ''Orsay''], distance_m = 12345,
          time_minutes = 95, map_path = ''maps/1.html''\<rparr>,
         \<lparr>day = Some 2, places = [''Versailles''], distance_m = 20150,
          time_minutes = 40, map_path = ''maps/2.html''\<rparr>]\<rparr>"

definition undated_plan :: plan_response where
  "undated_plan =
     \<lparr>routes =
        [\<lparr>day = None, places = [''Louvre''], distance_m = 950,
          time_minutes = 12, map_path = ''maps/0.html''\<rparr>]\<rparr>"

definition empty_plan :: plan_response where
  "empty_plan = \<lparr>routes = []\<rparr>"

definition planned :: "plan_response \<Rightarrow> string \<Rightarrow> state" where
  "planned resp view = select_day 0 (populateDays resp ((blank view)\<lparr>lastPlan := Some resp\<rparr>))"

section \<open>Properties of the string operations\<close>

lemma split_on_not_Nil: "split_on sep s \<noteq> []"
  by (induction s) (auto split: list.splits)

lemma split_on_unfold:
  "split_on sep s =
     takeWhile (\<lambda>c. c \<noteq> sep) s #
       (if sep \<in> set s then split_on sep (tl (dropWhile (\<lambda>c. c \<noteq> sep) s)) else [])"
proof (induction s)
  case Nil
  show ?case by simp
next
  case (Cons c cs)
  show ?case
  proof (cases "c = sep")
    case True
    then show ?thesis by simp
  next
    case False
    then show ?thesis using Cons by (auto split: list.splits)
  qed
qed

lemma join_Cons: "pieces \<noteq> [] \<Longrightarrow> join sep (piece # pieces) = piece @ sep # join sep pieces"
  by (cases pieces) auto

lemma join_split_on: "join sep (split_on sep s) = s"
proof (induction s)
  case Nil
  show ?case by simp
next
  case (Cons c cs)
  show ?case
  proof (cases "c = sep")
    case True
    then show ?thesis using Cons by (simp add: join_Cons split_on_not_Nil)
  next
    case False
    obtain piece pieces where sp: "split_on sep cs = piece # pieces"
      using split_on_not_Nil [of sep cs] by (cases "split_on sep cs") auto
    from Cons sp have "join sep (piece # pieces) = cs" by simp
    then have "join sep ((c # piece) # pieces) = c # cs"
      by (cases pieces) auto
    then show ?thesis using False sp by simp
  qed
qed

lemma trim_prefix: "\<exists>w. dropWhile is_ws s = trim s @ w \<and> (\<forall>c \<in> set w. is_ws c)"
proof -
  let ?t = "dropWhile is_ws s"
  have "rev (rev ?t) = rev (takeWhile is_ws (rev ?t) @ dropWhile is_ws (rev ?t))"
    by (simp only: takeWhile_dropWhile_id)
  then have "?t = rev (dropWhile is_ws (rev ?t)) @ rev (takeWhile is_ws (rev ?t))"
    by (simp only: rev_append rev_rev_ident)
  then have "?t = trim s @ rev (takeWhile is_ws (rev ?t))"
    by (simp only: trim_def)
  moreover have "\<forall>c \<in> set (rev (takeWhile is_ws (rev ?t))). is_ws c"
    by (auto dest: set_takeWhileD)
  ultimately show ?thesis by blast
qed

lemma trim_hd: "trim s \<noteq> [] \<Longrightarrow> \<not> is_ws (hd (trim s))"
proof -
  assume ne: "trim s \<noteq> []"
  obtain w where w: "dropWhile is_ws s = trim s @ w" using trim_prefix by blast
  with ne have "dropWhile is_ws s \<noteq> []" by auto
  then have "\<not> is_ws (hd (dropWhile is_ws s))" by (rule hd_dropWhile)
  with w ne show ?thesis by simp
qed

lemma trim_last: "trim s \<noteq> [] \<Longrightarrow> \<not> is_ws (last (trim s))"
proof -
  assume ne: "trim s \<noteq> []"
  let ?u = "dropWhile is_ws (rev (dropWhile is_ws s))"
  from ne have "?u \<noteq> []" by (simp add: trim_def)
  then have "\<not> is_ws (hd ?u)" by (rule hd_dropWhile)
  moreover have "last (trim s) = hd ?u" using \<open>?u \<noteq> []\<close> by (simp add: trim_def last_rev)
  ultimately show ?thesis by simp
qed

lemma trim_fixed: "s \<noteq> [] \<Longrightarrow> \<not> is_ws (hd s) \<Longrightarrow> \<not> is_ws (last s) \<Longrightarrow> trim s = s"
proof -
  assume ne: "s \<noteq> []" and h: "\<not> is_ws (hd s)" and l: "\<not> is_ws (last s)"
  from ne h have d: "dropWhile is_ws s = s" by (cases s) auto
  from ne l have "dropWhile is_ws (rev s) = rev s" by (cases "rev s") (auto simp: last_rev)
  with d show ?thesis by (simp add: trim_def)
qed

lemma trim_Nil [simp]: "trim [] = []"
  by (simp add: trim_def)

lemma trim_idem: "trim (trim s) = trim s"
proof (cases "trim s = []")
  case True
  then show ?thesis by simp
next
  case False
  then show ?thesis using trim_hd [of s] trim_last [of s] by (intro trim_fixed) auto
qed

lemma trim_starts: "s \<noteq> [] \<Longrightarrow> \<not> is_ws (hd s) \<Longrightarrow> trim s \<noteq> [] \<and> hd (trim s) = hd s"
proof -
  assume ne: "s \<noteq> []" and h: "\<not> is_ws (hd s)"
  from ne h have d: "dropWhile is_ws s = s" by (cases s) auto
  obtain c cs where s: "s = c # cs" using ne by (cases s) auto
  have "dropWhile is_ws (rev s) \<noteq> []"
  proof
    assume "dropWhile is_ws (rev s) = []"
    then have "\<forall>x \<in> set (rev s). is_ws x" by (simp add: dropWhile_eq_Nil_conv)
    with s h show False by simp
  qed
  then have t: "trim s \<noteq> []" using d by (simp add: trim_def)
  obtain w where "dropWhile is_ws s = trim s @ w" using trim_prefix by blast
  with d t show ?thesis by (cases "trim s") auto
qed

lemma surviving_line:
  "line \<in> set (surviving_lines text) \<Longrightarrow> line \<noteq> [] \<and> \<not> is_ws (hd line) \<and> trim line = line"
  by (auto simp: surviving_lines_def trim_hd trim_idem)

section \<open>The mandatory parser against the rule\<close>

lemma each_place_Inr:
  "key \<notin> set object_prototype_keys \<Longrightarrow>
   each_place key pieces mandatory =
     Inr (\<lambda>d. if d = key \<and> filter (\<lambda>token. token \<noteq> []) (map trim pieces) \<noteq> []
               then Some ((case mandatory key of None \<Rightarrow> [] | Some pushed \<Rightarrow> pushed) @
                          filter (\<lambda>token. token \<noteq> []) (map trim pieces))
               else mandatory d)"
proof (induction pieces arbitrary: mandatory)
  case Nil
  show ?case by simp
next
  case (Cons place rest)
  show ?case
  proof (cases "trim place = []")
    case True
    then show ?thesis using Cons by (simp cong: if_cong)
  next
    case False
    let ?old = "case mandatory key of None \<Rightarrow> [] | Some pushed \<Rightarrow> pushed"
    have push: "push_place key (trim place) mandatory = Inr (mandatory(key \<mapsto> ?old @ [trim place]))"
      using Cons.prems by (simp add: push_place_def split: option.splits)
    have "each_place key (place # rest) mandatory =
            each_place key rest (mandatory(key \<mapsto> ?old @ [trim place]))"
      using False push by simp
    also have "\<dots> = Inr (\<lambda>d. if d = key \<and> filter (\<lambda>token. token \<noteq> []) (map trim rest) \<noteq> []
               then Some ((?old @ [trim place]) @ filter (\<lambda>token. token \<noteq> []) (map trim rest))
               else (mandatory(key \<mapsto> ?old @ [trim place])) d)"
      by (subst Cons.IH [OF Cons.prems]) (simp cong: if_cong)
    also have "\<dots> = Inr (\<lambda>d. if d = key \<and> filter (\<lambda>token. token \<noteq> []) (map trim (place # rest)) \<noteq> []
               then Some (?old @ filter (\<lambda>token. token \<noteq> []) (map trim (place # rest)))
               else mandatory d)"
      using False by (auto intro!: ext)
    finally show ?thesis .
  qed
qed

lemma no_bar_after_first_bar: "CHR ''|'' \<notin> set line \<Longrightarrow> after_first_bar line = []"
proof -
  assume "CHR ''|'' \<notin> set line"
  then have "dropWhile (\<lambda>c. c \<noteq> CHR ''|'') line = []" by (auto simp: dropWhile_eq_Nil_conv)
  then show ?thesis by (simp only: after_first_bar_def list.sel)
qed

lemma split_bar_two:
  "CHR ''|'' \<in> set line \<Longrightarrow>
   \<exists>more. split_on CHR ''|'' line = before_first_bar line # second_piece line # more"
proof -
  assume bar: "CHR ''|'' \<in> set line"
  have "split_on CHR ''|'' line = before_first_bar line # split_on CHR ''|'' (after_first_bar line)"
    using bar by (subst split_on_unfold) (simp add: before_first_bar_def after_first_bar_def)
  moreover have "\<exists>more. split_on CHR ''|'' (after_first_bar line) = second_piece line # more"
    by (subst split_on_unfold) (simp add: second_piece_def)
  ultimately show ?thesis by auto
qed

lemma split_bar_one: "CHR ''|'' \<notin> set line \<Longrightarrow> split_on CHR ''|'' line = [before_first_bar line]"
  by (subst split_on_unfold) (simp add: before_first_bar_def)

lemma mandatory_line_eq:
  "mandatory_line line mandatory =
     (if before_first_bar line = [] \<or> second_piece line = [] then Inr mandatory
      else each_place (before_first_bar line) (split_on CHR '','' (second_piece line)) mandatory)"
proof (cases "CHR ''|'' \<in> set line")
  case True
  then obtain more where "split_on CHR ''|'' line = before_first_bar line # second_piece line # more"
    using split_bar_two by blast
  then show ?thesis by (simp add: mandatory_line_def)
next
  case False
  then have "split_on CHR ''|'' line = [before_first_bar line]" and "second_piece line = []"
    by (simp_all add: split_bar_one second_piece_def no_bar_after_first_bar)
  then show ?thesis by (simp add: mandatory_line_def)
qed

lemma tokens_under_snoc:
  "tokens_under placesPart (lines @ [line]) key =
     tokens_under placesPart lines key @
       (if before_first_bar line = key \<and> before_first_bar line \<noteq> [] \<and> placesPart line \<noteq> []
        then tokens_of (placesPart line) else [])"
  by (auto simp: tokens_under_def)

lemma mandatory_line_grouped:
  assumes "before_first_bar line \<notin> set object_prototype_keys"
  shows "mandatory_line line (grouped second_piece before) =
           Inr (grouped second_piece (before @ [line]))"
proof (cases "before_first_bar line = [] \<or> second_piece line = []")
  case True
  then have "grouped second_piece (before @ [line]) = grouped second_piece before"
    by (auto simp: grouped_def tokens_under_snoc intro!: ext)
  then show ?thesis using True by (simp add: mandatory_line_eq)
next
  case False
  have old: "(case grouped second_piece before (before_first_bar line) of None \<Rightarrow> [] | Some pushed \<Rightarrow> pushed)
               = tokens_under second_piece before (before_first_bar line)"
    by (simp add: grouped_def)
  have "mandatory_line line (grouped second_piece before) =
          each_place (before_first_bar line) (split_on CHR '','' (second_piece line)) (grouped second_piece before)"
    using False by (simp add: mandatory_line_eq)
  also have "\<dots> = Inr (\<lambda>d. if d = before_first_bar line \<and> tokens_of (second_piece line) \<noteq> []
               then Some (tokens_under second_piece before (before_first_bar line) @ tokens_of (second_piece line))
               else grouped second_piece before d)"
    using each_place_Inr [OF assms] old by (simp add: tokens_of_def cong: if_cong)
  also have "\<dots> = Inr (grouped second_piece (before @ [line]))"
    using False by (auto simp: grouped_def tokens_under_snoc intro!: ext)
  finally show ?thesis .
qed

lemma each_mandatory_line_grouped:
  "\<forall>line \<in> set lines. before_first_bar line \<notin> set object_prototype_keys \<Longrightarrow>
   each_mandatory_line lines (grouped second_piece before) =
     Inr (grouped second_piece (before @ lines))"
proof (induction lines arbitrary: before)
  case Nil
  show ?case by simp
next
  case (Cons line rest)
  then have "each_mandatory_line rest (grouped second_piece (before @ [line])) =
               Inr (grouped second_piece ((before @ [line]) @ rest))"
    by simp
  then show ?case using Cons.prems by (simp add: mandatory_line_grouped)
qed

lemma grouped_Nil: "grouped placesPart [] = Map.empty"
  by (simp add: grouped_def tokens_under_def)

text \<open>
  C3, as the specification states it, fails: for the line \<^verbatim>\<open>1|A,B|C\<close> the rule that
  keeps everything after the first \<^verbatim>\<open>|\<close> gives the tokens \<^verbatim>\<open>A\<close> and
  \<^verbatim>\<open>B|C\<close> under day \<^verbatim>\<open>1\<close>, while the parser of the script, which takes the
  first two pieces of the split on every \<^verbatim>\<open>|\<close>, gives \<^verbatim>\<open>A\<close> and \<^verbatim>\<open>B\<close>.
\<close>

theorem parse_mandatory_spec_counterexample:
  "parse_mandatory ''1|A,B|C'' \<noteq> Inr (spec_mandatory ''1|A,B|C'')"
proof
  assume eq: "parse_mandatory ''1|A,B|C'' = Inr (spec_mandatory ''1|A,B|C'')"
  have "parse_mandatory ''1|A,B|C'' = Inr (Map.empty(''1'' \<mapsto> [''A'', ''B'']))"
    by (simp add: parse_mandatory_def surviving_lines_def trim_def is_ws_def mandatory_line_def
        push_place_def object_prototype_keys_def)
  with eq have "spec_mandatory ''1|A,B|C'' ''1'' = Some [''A'', ''B'']"
    by (metis Inr_inject fun_upd_same)
  moreover have "spec_mandatory ''1|A,B|C'' ''1'' = Some [''A'', ''B|C'']"
    by (simp add: spec_mandatory_def grouped_def tokens_under_def tokens_of_def
        after_first_bar_def before_first_bar_def surviving_lines_def trim_def is_ws_def)
  ultimately show False by simp
qed

text \<open>
  C3, amended: for every raw text of the mandatory field in which no line has the name of
  an inherited object property as its day, the parse succeeds and equals the rule in which
  a line is split at its first \<^verbatim>\<open>|\<close> into the day and the rest, the places part is
  the rest up to its next \<^verbatim>\<open>|\<close> (anything after a second \<^verbatim>\<open>|\<close> is dropped),
  lines where the day or the places part is empty are skipped, and the trimmed non-empty
  comma-separated tokens of the places part are appended under the day in order.
\<close>

theorem parse_mandatory_two_piece:
  assumes "\<forall>line \<in> set (surviving_lines text). before_first_bar line \<notin> set object_prototype_keys"
  shows "parse_mandatory text = Inr (two_piece_mandatory text)"
  using each_mandatory_line_grouped [OF assms, of "[]"]
  by (simp add: parse_mandatory_def two_piece_mandatory_def grouped_Nil)

text \<open>The amended C3 at the line \<^verbatim>\<open>1|A,B|C\<close>, whose day \<^verbatim>\<open>1\<close> gets the tokens
  \<^verbatim>\<open>A\<close> and \<^verbatim>\<open>B\<close>.\<close>

theorem parse_mandatory_two_piece_witness:
  "surviving_lines ''1|A,B|C'' = [''1|A,B|C'']
   \<and> before_first_bar ''1|A,B|C'' = ''1''
   \<and> ''1'' \<notin> set object_prototype_keys
   \<and> parse_mandatory ''1|A,B|C'' = Inr (two_piece_mandatory ''1|A,B|C'')
   \<and> two_piece_mandatory ''1|A,B|C'' ''1'' = Some [''A'', ''B'']"
proof -
  have l: "surviving_lines ''1|A,B|C'' = [''1|A,B|C'']"
    by (simp add: surviving_lines_def trim_def is_ws_def)
  have d: "before_first_bar ''1|A,B|C'' = ''1''"
    by (simp add: before_first_bar_def)
  have k: "''1'' \<notin> set object_prototype_keys"
    by (simp add: object_prototype_keys_def)
  have h: "\<forall>line \<in> set (surviving_lines ''1|A,B|C''). before_first_bar line \<notin> set object_prototype_keys"
    using l d k by simp
  have v: "two_piece_mandatory ''1|A,B|C'' ''1'' = Some [''A'', ''B'']"
    by (simp add: two_piece_mandatory_def grouped_def tokens_under_def tokens_of_def
        second_piece_def after_first_bar_def before_first_bar_def surviving_lines_def trim_def is_ws_def)
  show ?thesis using l d k parse_mandatory_two_piece [OF h] v by simp
qed

text \<open>
  The days that the amended C3 leaves aside: a line whose day is the name of an inherited
  property, such as \<^verbatim>\<open>toString|A\<close>, makes the parser throw at its first token.
\<close>

lemma parse_mandatory_inherited_day:
  "parse_mandatory ''toString|A'' = Inl not_a_function"
  by (simp add: parse_mandatory_def surviving_lines_def trim_def is_ws_def mandatory_line_def
      push_place_def object_prototype_keys_def)

section \<open>The alternative addresses\<close>

lemma alt_line_eq:
  "alt_line line alt =
     (if before_first_bar line = [] then alt
      else set_property (trim (before_first_bar line)) (trim (after_first_bar line)) alt)"
proof (cases "CHR ''|'' \<in> set line")
  case True
  have "split_on CHR ''|'' line = before_first_bar line # split_on CHR ''|'' (after_first_bar line)"
    using True by (subst split_on_unfold) (simp add: before_first_bar_def after_first_bar_def)
  then show ?thesis by (simp add: alt_line_def join_split_on)
next
  case False
  then show ?thesis
    by (simp add: alt_line_def split_bar_one no_bar_after_first_bar)
qed

lemma altAddresses_of_lines_snoc:
  "altAddresses_of_lines (lines @ [line]) = alt_line line (altAddresses_of_lines lines)"
  by (simp add: altAddresses_of_lines_def)

lemma fold_alt_line_other:
  "\<forall>later \<in> set lines. before_first_bar later = [] \<or> trim (before_first_bar later) \<noteq> k \<Longrightarrow>
   fold alt_line lines alt k = alt k"
proof (induction lines arbitrary: alt)
  case Nil
  show ?case by simp
next
  case (Cons line rest)
  then have "fold alt_line rest (alt_line line alt) k = alt_line line alt k" by simp
  moreover have "alt_line line alt k = alt k"
    using Cons.prems by (auto simp: alt_line_eq set_property_def)
  ultimately show ?case by simp
qed

lemma altAddresses_of_lines_mid:
  assumes "\<forall>later \<in> set after. before_first_bar later = [] \<or> trim (before_first_bar later) \<noteq> k"
  shows "altAddresses_of_lines (before @ line # after) k = alt_line line (altAddresses_of_lines before) k"
  using fold_alt_line_other [OF assms] by (simp add: altAddresses_of_lines_def)

lemma before_first_bar_append:
  "CHR ''|'' \<notin> set original \<Longrightarrow> before_first_bar (original @ CHR ''|'' # rest) = original"
  by (induction original) (auto simp: before_first_bar_def)

lemma after_first_bar_append:
  "CHR ''|'' \<notin> set original \<Longrightarrow> after_first_bar (original @ CHR ''|'' # rest) = rest"
  by (induction original) (auto simp: after_first_bar_def)

lemma before_first_bar_no_bar:
  "CHR ''|'' \<notin> set line \<Longrightarrow> before_first_bar line = line"
  by (induction line) (auto simp: before_first_bar_def)

lemma fold_alt_line_empty_original:
  "fold alt_line ((CHR ''|'' # rest) # after) alt = fold alt_line after alt"
  by (simp add: alt_line_eq before_first_bar_def)

lemma altAddresses_examples:
  "parse_altAddresses ''A|B|C'' ''A'' = Some ''B|C''"
  "parse_altAddresses ''A'' ''A'' = Some ''''"
  "parse_altAddresses ''|B'' = Map.empty"
  "parse_altAddresses ''A|B\<newline>A|C'' ''A'' = Some ''C''"
  by (simp_all add: parse_altAddresses_def altAddresses_of_lines_def surviving_lines_def
       trim_def is_ws_def alt_line_def set_property_def)

text \<open>
  C7. A line \<^verbatim>\<open>original|replacement\<close>, whatever lines come before it and provided no
  later line has the same trimmed original, gives the trimmed original the trimmed
  replacement, later \<^verbatim>\<open>|\<close> characters of the replacement kept; so \<^verbatim>\<open>A|B|C\<close>
  gives \<^verbatim>\<open>B|C\<close> under \<^verbatim>\<open>A\<close>, and of two lines with the same original the last
  one wins. A line without separator registers its key with the empty replacement. A line
  with an empty original adds no entry. (The key \<^verbatim>\<open>__proto__\<close> is left aside: an
  assignment to it creates no property.)
\<close>

theorem altAddresses_rules:
  assumes "original \<noteq> []" and "CHR ''|'' \<notin> set original" and "trim original \<noteq> ''__proto__''"
    and "\<forall>later \<in> set after. before_first_bar later = [] \<or> trim (before_first_bar later) \<noteq> trim original"
  shows "altAddresses_of_lines (before @ (original @ CHR ''|'' # replacement) # after) (trim original)
           = Some (trim replacement)
       \<and> altAddresses_of_lines (before @ original # after) (trim original) = Some ''''
       \<and> altAddresses_of_lines (before @ (CHR ''|'' # replacement) # after)
           = altAddresses_of_lines (before @ after)
       \<and> parse_altAddresses ''A|B|C'' ''A'' = Some ''B|C''
       \<and> parse_altAddresses ''A'' ''A'' = Some ''''
       \<and> parse_altAddresses ''|B'' = Map.empty
       \<and> parse_altAddresses ''A|B\<newline>A|C'' ''A'' = Some ''C''"
proof -
  have one: "altAddresses_of_lines (before @ (original @ CHR ''|'' # replacement) # after) (trim original)
           = Some (trim replacement)"
    using assms
    by (simp add: altAddresses_of_lines_mid alt_line_eq before_first_bar_append
        after_first_bar_append set_property_def)
  have two: "altAddresses_of_lines (before @ original # after) (trim original) = Some ''''"
    using assms
    by (simp add: altAddresses_of_lines_mid alt_line_eq before_first_bar_no_bar
        no_bar_after_first_bar set_property_def)
  have three: "altAddresses_of_lines (before @ (CHR ''|'' # replacement) # after)
           = altAddresses_of_lines (before @ after)"
    by (simp add: altAddresses_of_lines_def alt_line_eq before_first_bar_def)
  show ?thesis using one two three altAddresses_examples by simp
qed

text \<open>C7 at the lines \<^verbatim>\<open>A|x\<close>, then \<^verbatim>\<open>A|B|C\<close>, \<^verbatim>\<open>A\<close> or \<^verbatim>\<open>|B|C\<close>, then
  \<^verbatim>\<open>D|y\<close>.\<close>

theorem altAddresses_rules_witness:
  "altAddresses_of_lines [''A|x'', ''A|B|C'', ''D|y''] (trim ''A'') = Some (trim ''B|C'')
   \<and> altAddresses_of_lines [''A|x'', ''A'', ''D|y''] (trim ''A'') = Some ''''
   \<and> altAddresses_of_lines [''A|x'', ''|B|C'', ''D|y''] = altAddresses_of_lines [''A|x'', ''D|y'']
   \<and> trim ''A'' = ''A'' \<and> trim ''B|C'' = ''B|C''"
proof -
  have t: "trim ''A'' = ''A''" "trim ''B|C'' = ''B|C''"
    by (simp_all add: trim_def is_ws_def)
  have h1: "''A'' \<noteq> []" and h2: "CHR ''|'' \<notin> set ''A''" by simp_all
  have h3: "trim ''A'' \<noteq> ''__proto__''" using t by simp
  have h4: "\<forall>later \<in> set [''D|y'']. before_first_bar later = [] \<or> trim (before_first_bar later) \<noteq> trim ''A''"
    by (simp add: before_first_bar_def trim_def is_ws_def)
  show ?thesis
    using altAddresses_rules [OF h1 h2 h3 h4, of "[''A|x'']" "''B|C''"] t by simp
qed

section \<open>The keys of the request\<close>

lemma alt_line_keys:
  assumes "line \<noteq> []" and "\<not> is_ws (hd line)"
    and "\<forall>k \<in> dom alt. k \<noteq> [] \<and> trim k = k"
  shows "\<forall>k \<in> dom (alt_line line alt). k \<noteq> [] \<and> trim k = k"
proof (cases "before_first_bar line = []")
  case True
  then show ?thesis using assms(3) by (simp add: alt_line_eq)
next
  case False
  obtain c cs where line: "line = c # cs" using assms(1) by (cases line) auto
  with False have "hd (before_first_bar line) = hd line"
    by (auto simp: before_first_bar_def split: if_splits)
  with assms(2) False have "trim (before_first_bar line) \<noteq> []"
    using trim_starts [of "before_first_bar line"] by simp
  then show ?thesis using assms(3) False
    by (auto simp: alt_line_eq set_property_def trim_idem split: if_splits)
qed

lemma fold_alt_line_keys:
  "\<forall>line \<in> set lines. line \<noteq> [] \<and> \<not> is_ws (hd line) \<Longrightarrow>
   \<forall>k \<in> dom alt. k \<noteq> [] \<and> trim k = k \<Longrightarrow>
   \<forall>k \<in> dom (fold alt_line lines alt). k \<noteq> [] \<and> trim k = k"
proof (induction lines arbitrary: alt)
  case Nil
  then show ?case by simp
next
  case (Cons line rest)
  from Cons.prems(1) have l: "line \<noteq> []" "\<not> is_ws (hd line)"
    and r: "\<forall>line \<in> set rest. line \<noteq> [] \<and> \<not> is_ws (hd line)"
    by simp_all
  have "\<forall>k \<in> dom (alt_line line alt). k \<noteq> [] \<and> trim k = k"
    by (rule alt_line_keys [OF l Cons.prems(2)])
  from Cons.IH [OF r this] show ?case by simp
qed

lemma parse_altAddresses_keys:
  "k \<in> dom (parse_altAddresses text) \<Longrightarrow> k \<noteq> [] \<and> trim k = k"
proof -
  assume k: "k \<in> dom (parse_altAddresses text)"
  have "\<forall>line \<in> set (surviving_lines text). line \<noteq> [] \<and> \<not> is_ws (hd line)"
    using surviving_line by blast
  then have "\<forall>k \<in> dom (fold alt_line (surviving_lines text) Map.empty). k \<noteq> [] \<and> trim k = k"
    by (intro fold_alt_line_keys) simp_all
  with k show ?thesis by (simp add: parse_altAddresses_def altAddresses_of_lines_def)
qed

lemma push_place_dom:
  "push_place k place mandatory = Inr mandatory' \<Longrightarrow> dom mandatory' = insert k (dom mandatory)"
  by (auto simp: push_place_def split: option.splits if_splits)

lemma each_place_dom:
  "each_place k pieces mandatory = Inr mandatory' \<Longrightarrow> dom mandatory' \<subseteq> insert k (dom mandatory)"
proof (induction pieces arbitrary: mandatory)
  case Nil
  then show ?case by auto
next
  case (Cons place rest)
  show ?case
  proof (cases "trim place = []")
    case True
    then show ?thesis using Cons by simp
  next
    case False
    with Cons.prems obtain mid where
      mid: "push_place k (trim place) mandatory = Inr mid" and rest: "each_place k rest mid = Inr mandatory'"
      by (auto split: sum.splits)
    from Cons.IH [OF rest] push_place_dom [OF mid] show ?thesis by auto
  qed
qed

lemma mandatory_line_dom:
  "mandatory_line line mandatory = Inr mandatory' \<Longrightarrow>
   dom mandatory' \<subseteq> insert (before_first_bar line) (dom mandatory)"
  by (auto simp: mandatory_line_eq dest!: each_place_dom split: if_splits)

lemma each_mandatory_line_dom:
  "each_mandatory_line lines mandatory = Inr mandatory' \<Longrightarrow>
   dom mandatory' \<subseteq> before_first_bar ` set lines \<union> dom mandatory"
proof (induction lines arbitrary: mandatory)
  case Nil
  then show ?case by auto
next
  case (Cons line rest)
  then obtain mid where
    mid: "mandatory_line line mandatory = Inr mid" and rest: "each_mandatory_line rest mid = Inr mandatory'"
    by (auto split: sum.splits)
  from Cons.IH [OF rest] mandatory_line_dom [OF mid] show ?case by auto
qed

lemma parse_mandatory_keys:
  "parse_mandatory text = Inr mandatory \<Longrightarrow> k \<in> dom mandatory \<Longrightarrow>
   k \<in> before_first_bar ` set (surviving_lines text)"
  using each_mandatory_line_dom [of "surviving_lines text" Map.empty mandatory]
  by (auto simp: parse_mandatory_def)

lemma build_payload_Inr:
  "build_payload st = Inr p \<Longrightarrow>
   parse_mandatory (field st ''mandatory'') = Inr (mandatory_by_day (config p))
   \<and> alt_addresses (config p) = parse_altAddresses (field st ''altAddresses'')"
  by (auto simp: build_payload_def Let_def split: sum.splits)

lemma two_day_keys:
  "parse_mandatory ''1|A\<newline>1 |A'' = Inr (Map.empty(''1'' \<mapsto> [''A''], ''1 '' \<mapsto> [''A'']))"
  by (simp add: parse_mandatory_def surviving_lines_def trim_def is_ws_def mandatory_line_def
      push_place_def object_prototype_keys_def)

lemma trim_one_space: "trim ''1 '' = ''1''"
  by (simp add: trim_def is_ws_def)

text \<open>
  C10. In a built plan request every key of \<^verbatim>\<open>alt_addresses\<close> is a trimmed string
  that is not empty, while every key of \<^verbatim>\<open>mandatory_by_day\<close> is the text before the
  first \<^verbatim>\<open>|\<close> of a line as it stands, not trimmed: the lines \<^verbatim>\<open>1|A\<close> and
  \<^verbatim>\<open>1 |A\<close> give the two distinct day keys \<^verbatim>\<open>1\<close> and \<^verbatim>\<open>1\<close> followed by a
  space.
\<close>

theorem payload_keys:
  assumes "build_payload st = Inr p"
  shows "(\<forall>k \<in> dom (alt_addresses (config p)). k \<noteq> [] \<and> trim k = k)
       \<and> (\<forall>k \<in> dom (mandatory_by_day (config p)).
            k \<in> before_first_bar ` set (surviving_lines (field st ''mandatory'')))
       \<and> (\<exists>mandatory. parse_mandatory ''1|A\<newline>1 |A'' = Inr mandatory
            \<and> mandatory ''1'' = Some [''A''] \<and> mandatory ''1 '' = Some [''A'']
            \<and> ''1'' \<noteq> ''1 '' \<and> trim ''1 '' = ''1'')"
proof -
  from build_payload_Inr [OF assms] have
    m: "parse_mandatory (field st ''mandatory'') = Inr (mandatory_by_day (config p))" and
    a: "alt_addresses (config p) = parse_altAddresses (field st ''altAddresses'')"
    by simp_all
  have one: "\<forall>k \<in> dom (alt_addresses (config p)). k \<noteq> [] \<and> trim k = k"
  proof
    fix k
    assume "k \<in> dom (alt_addresses (config p))"
    then have "k \<in> dom (parse_altAddresses (field st ''altAddresses''))" by (simp only: a)
    then show "k \<noteq> [] \<and> trim k = k" by (rule parse_altAddresses_keys)
  qed
  have two: "\<forall>k \<in> dom (mandatory_by_day (config p)).
            k \<in> before_first_bar ` set (surviving_lines (field st ''mandatory''))"
  proof
    fix k
    assume "k \<in> dom (mandatory_by_day (config p))"
    with m show "k \<in> before_first_bar ` set (surviving_lines (field st ''mandatory''))"
      by (rule parse_mandatory_keys)
  qed
  have three: "\<exists>mandatory. parse_mandatory ''1|A\<newline>1 |A'' = Inr mandatory
            \<and> mandatory ''1'' = Some [''A''] \<and> mandatory ''1 '' = Some [''A'']
            \<and> ''1'' \<noteq> ''1 '' \<and> trim ''1 '' = ''1''"
    by (rule exI [of _ "Map.empty(''1'' \<mapsto> [''A''], ''1 '' \<mapsto> [''A''])"])
      (simp add: two_day_keys trim_one_space)
  from one two three show ?thesis by (intro conjI)
qed

text \<open>C10 at a form whose mandatory field holds the lines \<^verbatim>\<open>1|A\<close> and
  \<^verbatim>\<open>1 |A\<close> and whose alternative addresses hold a line with a padded original.\<close>

theorem payload_keys_witness:
  "\<exists>p. build_payload (edit ''altAddresses'' '' A |x'' (edit ''mandatory'' ''1|A\<newline>1 |A'' (blank ''list''))) = Inr p
     \<and> alt_addresses (config p) ''A'' = Some ''x''
     \<and> ''A'' \<noteq> [] \<and> trim ''A'' = ''A''
     \<and> mandatory_by_day (config p) ''1 '' = Some [''A'']
     \<and> ''1 '' \<in> before_first_bar ` set (surviving_lines ''1|A\<newline>1 |A'')"
proof -
  let ?S = "edit ''altAddresses'' '' A |x'' (edit ''mandatory'' ''1|A\<newline>1 |A'' (blank ''list''))"
  have fm: "field ?S ''mandatory'' = ''1|A\<newline>1 |A''"
    and fa: "field ?S ''altAddresses'' = '' A |x''"
    by (simp_all add: edit_def blank_def)
  obtain p where p: "build_payload ?S = Inr p"
    by (simp add: build_payload_def Let_def fm two_day_keys)
  from build_payload_Inr [OF p] have
    m: "mandatory_by_day (config p) = Map.empty(''1'' \<mapsto> [''A''], ''1 '' \<mapsto> [''A''])" and
    a: "alt_addresses (config p) = parse_altAddresses '' A |x''"
    by (simp_all add: fm fa two_day_keys)
  have av: "alt_addresses (config p) ''A'' = Some ''x''"
    by (simp add: a parse_altAddresses_def altAddresses_of_lines_def surviving_lines_def
        trim_def is_ws_def alt_line_def set_property_def)
  have mv: "mandatory_by_day (config p) ''1 '' = Some [''A'']"
    by (simp add: m)
  from av have ad: "''A'' \<in> dom (alt_addresses (config p))" by blast
  from mv have md: "''1 '' \<in> dom (mandatory_by_day (config p))" by blast
  from payload_keys [OF p] ad have "''A'' \<noteq> [] \<and> trim ''A'' = ''A''" by blast
  moreover from payload_keys [OF p] md
  have "''1 '' \<in> before_first_bar ` set (surviving_lines ''1|A\<newline>1 |A'')"
    by (simp only: fm)
  ultimately show ?thesis using p av mv by blast
qed

section \<open>The view\<close>

lemma renderList_fold_other:
  "fold (\<lambda>info s. s\<lparr>list_innerHTML := list_innerHTML s @ route_block info\<rparr>) infos st
     = st\<lparr>list_innerHTML := list_innerHTML st @ concat (map route_block infos)\<rparr>"
  by (induction infos arbitrary: st) simp_all

lemma renderList_eq:
  "renderList resp st = st\<lparr>list_innerHTML := concat (map route_block (routes resp))\<rparr>"
  by (simp add: renderList_def renderList_fold_other)

lemma showMap_cases:
  "showMap idx st = (Some null_routes, st) \<or> showMap idx st = (Some undefined_map_path, st)
   \<or> (\<exists>src. showMap idx st = (None, st\<lparr>mapFrame_src := src\<rparr>))"
  by (auto simp: showMap_def split: option.splits)

lemma showMap_keeps:
  "day_hidden (snd (showMap idx st)) = day_hidden st"
  "field (snd (showMap idx st)) = field st"
  "localStorage (snd (showMap idx st)) = localStorage st"
  "lastPlan (snd (showMap idx st)) = lastPlan st"
  "alerts (snd (showMap idx st)) = alerts st"
  "list_innerHTML (snd (showMap idx st)) = list_innerHTML st"
  using showMap_cases [of idx st] by auto

lemma populated_values:
  "map fst (day_options (populateDays resp st)) = [0..<length (routes resp)]"
  by (simp add: populateDays_def case_prod_beta comp_def map_fst_enumerate [unfolded comp_def])

lemma planned_simps:
  "lastPlan (planned resp view) = Some resp"
  "field (planned resp view) ''view'' = view"
  "alerts (planned resp view) = []"
  by (simp_all add: planned_def select_day_def populateDays_def blank_def)

lemma planned_day_value:
  "day_value (planned resp view) = (if routes resp = [] then None else Some 0)"
  by (simp add: planned_def select_day_def populated_values)

text \<open>
  C1 fails on the first script: whatever the view and the rest of the page, with no last
  plan its \<^verbatim>\<open>updateView\<close> raises the TypeError of line 43 and changes nothing, the
  visibility of the regions included.
\<close>

theorem updateView_gated_without_plan:
  "updateView Gated (st\<lparr>lastPlan := None\<rparr>) = (Some null_routes, st\<lparr>lastPlan := None\<rparr>)"
  by (simp add: updateView_gated_def)

text \<open>
  The second script does what C1 says: with no last plan its \<^verbatim>\<open>updateView\<close> sets
  the visibility of the three regions and returns, without rendering and without error.
\<close>

lemma updateView_ungated_without_plan:
  "lastPlan st = None \<Longrightarrow>
   updateView Ungated st =
     (None, st\<lparr>list_hidden := (field st ''view'' \<noteq> ''list''),
               map_hidden := (field st ''view'' \<noteq> ''map''),
               day_hidden := (field st ''view'' \<noteq> ''map'')\<rparr>)"
  by (simp add: updateView_ungated_def Let_def)

lemma updateView_gated_day_hidden:
  "lastPlan st = Some resp \<Longrightarrow>
   day_hidden (snd (updateView_gated st)) =
     (\<not> (field st ''view'' = ''map'' \<and> (\<exists>route \<in> set (routes resp). day route \<noteq> None)))"
  by (simp add: updateView_gated_def Let_def renderList_eq showMap_keeps list_ex_iff)

lemma updateView_ungated_day_hidden:
  "day_hidden (snd (updateView_ungated st)) = (field st ''view'' \<noteq> ''map'')"
  by (simp add: updateView_ungated_def Let_def renderList_eq showMap_keeps split: option.splits)

text \<open>
  The day selector on a page that has a last plan. After \<^verbatim>\<open>updateView\<close> of the gated
  variant it is visible exactly when the view is \<^verbatim>\<open>map\<close> and some route of the last
  plan has a day that is not null; after \<^verbatim>\<open>updateView\<close> of the ungated variant it is
  visible exactly when the view is \<^verbatim>\<open>map\<close>, with or without a plan.
\<close>

lemma day_selector_with_plan:
  "(lastPlan st = Some resp \<longrightarrow>
      (\<not> day_hidden (snd (updateView Gated st))) =
        (field st ''view'' = ''map'' \<and> (\<exists>route \<in> set (routes resp). day route \<noteq> None)))
   \<and> (\<not> day_hidden (snd (updateView Ungated st))) = (field st ''view'' = ''map'')"
  by (simp add: updateView_gated_day_hidden updateView_ungated_day_hidden)

text \<open>
  Three such pages: in map view, a plan whose only route has no day hides the selector
  in the gated variant and shows it in the ungated one, so the variants differ; a plan
  with days shows it; in list view it is hidden in both.
\<close>

lemma day_selector_with_plan_examples:
  "day_hidden (snd (updateView Gated (planned undated_plan ''map'')))
   \<and> \<not> day_hidden (snd (updateView Ungated (planned undated_plan ''map'')))
   \<and> \<not> day_hidden (snd (updateView Gated (planned two_day_plan ''map'')))
   \<and> day_hidden (snd (updateView Gated (planned two_day_plan ''list'')))
   \<and> day_hidden (snd (updateView Ungated (planned two_day_plan ''list'')))"
proof -
  have u: "lastPlan (planned undated_plan ''map'') = Some undated_plan"
    and t: "lastPlan (planned two_day_plan ''map'') = Some two_day_plan"
    and l: "lastPlan (planned two_day_plan ''list'') = Some two_day_plan"
    by (simp_all add: planned_simps)
  from u day_selector_with_plan [of "planned undated_plan ''map''" undated_plan]
  have "day_hidden (snd (updateView Gated (planned undated_plan ''map'')))
      \<and> \<not> day_hidden (snd (updateView Ungated (planned undated_plan ''map'')))"
    by (simp add: planned_simps undated_plan_def)
  moreover from t day_selector_with_plan [of "planned two_day_plan ''map''" two_day_plan]
  have "\<not> day_hidden (snd (updateView Gated (planned two_day_plan ''map'')))"
    by (simp add: planned_simps planned_day_value two_day_plan_def)
  moreover from l day_selector_with_plan [of "planned two_day_plan ''list''" two_day_plan]
  have "day_hidden (snd (updateView Gated (planned two_day_plan ''list'')))
      \<and> day_hidden (snd (updateView Ungated (planned two_day_plan ''list'')))"
    by (simp add: planned_simps)
  ultimately show ?thesis by simp
qed

text \<open>
  C5 fails on the gated variant when there is no last plan. No route has a day then, so
  the rule wants the selector hidden whatever the view; but
  \<^verbatim>\<open>updateView\<close> raises the TypeError of line 43 before the toggle of line 46 and
  leaves the selector as it was, visible if it was visible: on a page without a plan
  whose selector is shown and whose view is \<^verbatim>\<open>map\<close> it stays shown.
\<close>

theorem day_selector_gated_without_plan:
  "fst (updateView Gated (st\<lparr>lastPlan := None\<rparr>)) = Some null_routes
   \<and> day_hidden (snd (updateView Gated (st\<lparr>lastPlan := None\<rparr>))) = day_hidden st
   \<and> lastPlan (blank ''map'') = None
   \<and> field (blank ''map'') ''view'' = ''map''
   \<and> \<not> day_hidden (snd (updateView Gated (blank ''map'')))"
  by (simp add: updateView_gated_def blank_def)

lemma showMap_ok_iff:
  "lastPlan st = Some resp \<Longrightarrow>
   (fst (showMap idx st) = None) = (\<exists>i. idx = Some i \<and> i < length (routes resp))"
  by (auto simp: showMap_def split: option.splits)

lemma showMap_fails:
  "lastPlan st = Some resp \<Longrightarrow> fst (showMap idx st) \<noteq> None \<Longrightarrow>
   showMap idx st = (Some undefined_map_path, st)"
  by (auto simp: showMap_def split: option.splits if_splits)

lemma updateView_no_routes:
  "lastPlan st = Some resp \<Longrightarrow> routes resp = [] \<Longrightarrow> field st ''view'' = ''map'' \<Longrightarrow>
   fst (updateView v st) = Some undefined_map_path"
  by (cases v) (auto simp: updateView_gated_def updateView_ungated_def Let_def showMap_def
      split: option.splits)

text \<open>
  C9. With a last plan, \<^verbatim>\<open>showMap\<close> succeeds exactly when its index is the index of
  a route of the plan; otherwise it raises the TypeError of reading
  \<^verbatim>\<open>map_path\<close> of undefined and leaves the page as it was. With a plan that has no
  route and the view \<^verbatim>\<open>map\<close>, \<^verbatim>\<open>updateView\<close> of either variant raises that
  error.
\<close>

theorem map_view_needs_route:
  assumes "lastPlan st = Some resp"
  shows "(fst (showMap idx st) = None) = (\<exists>i. idx = Some i \<and> i < length (routes resp))
       \<and> (fst (showMap idx st) \<noteq> None \<longrightarrow> showMap idx st = (Some undefined_map_path, st))
       \<and> (routes resp = [] \<and> field st ''view'' = ''map'' \<longrightarrow>
            fst (updateView v st) = Some undefined_map_path)"
proof (intro conjI impI)
  show "(fst (showMap idx st) = None) = (\<exists>i. idx = Some i \<and> i < length (routes resp))"
    by (rule showMap_ok_iff [OF assms])
  show "showMap idx st = (Some undefined_map_path, st)" if "fst (showMap idx st) \<noteq> None"
    using that by (rule showMap_fails [OF assms])
  show "fst (updateView v st) = Some undefined_map_path"
    if "routes resp = [] \<and> field st ''view'' = ''map''"
    using that by (simp add: updateView_no_routes [OF assms])
qed

text \<open>C9 on a page planned with no route, and on one with two routes at the indices 1
  and 2.\<close>

theorem map_view_needs_route_witness:
  "fst (updateView Gated (planned empty_plan ''map'')) = Some undefined_map_path
   \<and> fst (updateView Ungated (planned empty_plan ''map'')) = Some undefined_map_path
   \<and> showMap (Some 0) (planned empty_plan ''map'') = (Some undefined_map_path, planned empty_plan ''map'')
   \<and> fst (showMap (Some 2) (planned two_day_plan ''map'')) \<noteq> None
   \<and> fst (showMap (Some 1) (planned two_day_plan ''map'')) = None"
proof -
  have e: "lastPlan (planned empty_plan ''map'') = Some empty_plan"
    and t: "lastPlan (planned two_day_plan ''map'') = Some two_day_plan"
    by (simp_all add: planned_simps)
  have r: "routes empty_plan = [] \<and> field (planned empty_plan ''map'') ''view'' = ''map''"
    by (simp add: planned_simps empty_plan_def)
  have n: "length (routes empty_plan) = 0" "length (routes two_day_plan) = 2"
    by (simp_all add: empty_plan_def two_day_plan_def)
  from map_view_needs_route [OF e, of "Some 0" Gated] r
  have "fst (updateView Gated (planned empty_plan ''map'')) = Some undefined_map_path" by blast
  moreover from map_view_needs_route [OF e, of "Some 0" Ungated] r
  have "fst (updateView Ungated (planned empty_plan ''map'')) = Some undefined_map_path" by blast
  moreover from map_view_needs_route [OF e, of "Some 0" Gated] n
  have "showMap (Some 0) (planned empty_plan ''map'') = (Some undefined_map_path, planned empty_plan ''map'')"
    by simp
  moreover from map_view_needs_route [OF t, of "Some 2" Gated] n
  have "fst (showMap (Some 2) (planned two_day_plan ''map'')) \<noteq> None" by simp
  moreover from map_view_needs_route [OF t, of "Some 1" Gated] n
  have "fst (showMap (Some 1) (planned two_day_plan ''map'')) = None" by simp
  ultimately show ?thesis by simp
qed

section \<open>Restoring the form\<close>

lemma updateView_gated_keeps:
  "field (snd (updateView_gated st)) = field st"
  "localStorage (snd (updateView_gated st)) = localStorage st"
  by (simp_all add: updateView_gated_def Let_def renderList_eq showMap_keeps split: option.splits)

lemma setValue_field:
  "field (fst (setValue params ident (st, had))) f =
     (if f = ident
      then (case usp_get params f of
              Some v \<Rightarrow> v
            | None \<Rightarrow> (case localStorage st f of Some v \<Rightarrow> v | None \<Rightarrow> field st f))
      else field st f)"
  by (simp add: setValue_def split: option.splits)

lemma setValue_storage:
  "localStorage (fst (setValue params ident (st, had))) f =
     (if f = ident
      then (case usp_get params f of Some v \<Rightarrow> Some v | None \<Rightarrow> localStorage st f)
      else localStorage st f)"
  by (simp add: setValue_def split: option.splits)

lemma fold_setValue_storage:
  "localStorage (fst (fold (setValue params) idents (st, had))) f =
     (if f \<in> set idents
      then (case usp_get params f of Some v \<Rightarrow> Some v | None \<Rightarrow> localStorage st f)
      else localStorage st f)"
proof (induction idents arbitrary: st had)
  case Nil
  show ?case by simp
next
  case (Cons ident rest)
  obtain st1 had1 where step: "setValue params ident (st, had) = (st1, had1)"
    by (cases "setValue params ident (st, had)")
  have s1: "localStorage st1 f = (if f = ident
      then (case usp_get params f of Some v \<Rightarrow> Some v | None \<Rightarrow> localStorage st f)
      else localStorage st f)"
    using setValue_storage [of params ident st had f] step by simp
  show ?case
    using Cons.IH [of st1 had1] s1 step by (auto split: option.splits if_splits)
qed

lemma fold_setValue_field:
  "field (fst (fold (setValue params) idents (st, had))) f =
     (if f \<in> set idents
      then (case usp_get params f of
              Some v \<Rightarrow> v
            | None \<Rightarrow> (case localStorage st f of Some v \<Rightarrow> v | None \<Rightarrow> field st f))
      else field st f)"
proof (induction idents arbitrary: st had)
  case Nil
  show ?case by simp
next
  case (Cons ident rest)
  obtain st1 had1 where step: "setValue params ident (st, had) = (st1, had1)"
    by (cases "setValue params ident (st, had)")
  have f1: "field st1 f = (if f = ident
      then (case usp_get params f of
              Some v \<Rightarrow> v
            | None \<Rightarrow> (case localStorage st f of Some v \<Rightarrow> v | None \<Rightarrow> field st f))
      else field st f)"
    using setValue_field [of params ident st had f] step by simp
  have s1: "localStorage st1 f = (if f = ident
      then (case usp_get params f of Some v \<Rightarrow> Some v | None \<Rightarrow> localStorage st f)
      else localStorage st f)"
    using setValue_storage [of params ident st had f] step by simp
  show ?case
    using Cons.IH [of st1 had1] f1 s1 step by (auto split: option.splits if_splits)
qed

lemma restoreForm_field:
  "field (snd (restoreForm st)) f = field (fst (fold (setValue (search st)) tracked (st, False))) f"
  and restoreForm_storage:
  "localStorage (snd (restoreForm st)) f =
     localStorage (fst (fold (setValue (search st)) tracked (st, False))) f"
proof -
  obtain st1 had where r: "fold (setValue (search st)) tracked (st, False) = (st1, had)"
    by (cases "fold (setValue (search st)) tracked (st, False)")
  let ?st2 = "st1\<lparr>body_dark := (localStorage st1 ''theme'' = Some ''dark'')\<rparr>"
  obtain e st3 where u: "updateView_gated ?st2 = (e, st3)"
    by (cases "updateView_gated ?st2")
  have k: "field st3 = field st1" "localStorage st3 = localStorage st1"
    using updateView_gated_keeps [of ?st2] u by simp_all
  have "snd (restoreForm st) = st3 \<or> snd (restoreForm st) = st3\<lparr>search := []\<rparr>"
    using r u by (cases e) (simp_all add: restoreForm_def Let_def)
  then show "field (snd (restoreForm st)) f = field (fst (fold (setValue (search st)) tracked (st, False))) f"
    and "localStorage (snd (restoreForm st)) f =
     localStorage (fst (fold (setValue (search st)) tracked (st, False))) f"
    using k r by auto
qed

lemma tracked_members:
  "''home'' \<in> set tracked" "''places'' \<in> set tracked" "''mandatory'' \<in> set tracked"
  "''altAddresses'' \<in> set tracked" "''mode'' \<in> set tracked" "''view'' \<in> set tracked"
  by (simp_all add: tracked_def)

lemma setValue_frame:
  "lastPlan (fst (setValue params ident acc)) = lastPlan (fst acc)"
  "search (fst (setValue params ident acc)) = search (fst acc)"
  by (cases acc; simp add: setValue_def split: option.splits)+

lemma fold_setValue_frame:
  "lastPlan (fst (fold (setValue params) idents acc)) = lastPlan (fst acc)"
  "search (fst (fold (setValue params) idents acc)) = search (fst acc)"
  by (induction idents arbitrary: acc) (simp_all add: setValue_frame)

text \<open>
  At page load there is no last plan, so the call of line 102 raises in the first script:
  \<^verbatim>\<open>restoreForm\<close> ends with that TypeError and the query is not stripped.
\<close>

lemma restoreForm_without_plan:
  assumes "lastPlan st = None"
  shows "fst (restoreForm st) = Some null_routes \<and> search (snd (restoreForm st)) = search st"
proof -
  obtain st1 had where r: "fold (setValue (search st)) tracked (st, False) = (st1, had)"
    by (cases "fold (setValue (search st)) tracked (st, False)")
  have "lastPlan st1 = None" and "search st1 = search st"
    using fold_setValue_frame [of "search st" tracked "(st, False)"] r assms by simp_all
  then show ?thesis
    using r by (simp add: restoreForm_def Let_def updateView_gated_def)
qed

text \<open>
  C6. After \<^verbatim>\<open>restoreForm\<close>, for each of the six tracked fields: a query parameter of
  that name gives the field its value and is stored; without one, a stored value gives the
  field its value and stays stored; without either, the field keeps the value it had and
  nothing is stored.
\<close>

theorem restoreForm_precedence:
  assumes "f \<in> set tracked"
  shows "(usp_get (search st) f = Some v \<longrightarrow>
            field (snd (restoreForm st)) f = v \<and> localStorage (snd (restoreForm st)) f = Some v)
       \<and> (usp_get (search st) f = None \<and> localStorage st f = Some v \<longrightarrow>
            field (snd (restoreForm st)) f = v \<and> localStorage (snd (restoreForm st)) f = Some v)
       \<and> (usp_get (search st) f = None \<and> localStorage st f = None \<longrightarrow>
            field (snd (restoreForm st)) f = field st f
            \<and> localStorage (snd (restoreForm st)) f = None)"
  using assms
  by (simp add: restoreForm_field restoreForm_storage fold_setValue_field fold_setValue_storage)

text \<open>
  C6 on a page whose query has \<^verbatim>\<open>home\<close>, whose storage has \<^verbatim>\<open>home\<close> and
  \<^verbatim>\<open>mode\<close>, and that has neither for \<^verbatim>\<open>view\<close>.
\<close>

theorem restoreForm_precedence_witness:
  "field (snd (restoreForm ((edit ''mode'' ''walking'' (edit ''home'' ''stored'' (blank ''list'')))
      \<lparr>search := [(''home'', ''from url'')]\<rparr>))) ''home'' = ''from url''
   \<and> localStorage (snd (restoreForm ((edit ''mode'' ''walking'' (edit ''home'' ''stored'' (blank ''list'')))
      \<lparr>search := [(''home'', ''from url'')]\<rparr>))) ''home'' = Some ''from url''
   \<and> field (snd (restoreForm ((edit ''mode'' ''walking'' (edit ''home'' ''stored'' (blank ''list'')))
      \<lparr>search := [(''home'', ''from url'')]\<rparr>))) ''mode'' = ''walking''
   \<and> field (snd (restoreForm ((edit ''mode'' ''walking'' (edit ''home'' ''stored'' (blank ''list'')))
      \<lparr>search := [(''home'', ''from url'')]\<rparr>))) ''view'' = ''list''
   \<and> localStorage (snd (restoreForm ((edit ''mode'' ''walking'' (edit ''home'' ''stored'' (blank ''list'')))
      \<lparr>search := [(''home'', ''from url'')]\<rparr>))) ''view'' = None"
proof -
  let ?st = "(edit ''mode'' ''walking'' (edit ''home'' ''stored'' (blank ''list'')))
      \<lparr>search := [(''home'', ''from url'')]\<rparr>"
  have q: "usp_get (search ?st) ''home'' = Some ''from url''"
    "usp_get (search ?st) ''mode'' = None" "usp_get (search ?st) ''view'' = None"
    by (simp_all add: usp_get_def)
  have s: "localStorage ?st ''home'' = Some ''stored''" "localStorage ?st ''mode'' = Some ''walking''"
    "localStorage ?st ''view'' = None" "field ?st ''view'' = ''list''"
    by (simp_all add: edit_def blank_def)
  from restoreForm_precedence [OF tracked_members(1), of ?st "''from url''"] q
  have "field (snd (restoreForm ?st)) ''home'' = ''from url''
      \<and> localStorage (snd (restoreForm ?st)) ''home'' = Some ''from url''"
    by blast
  moreover from restoreForm_precedence [OF tracked_members(5), of ?st "''walking''"] q s
  have "field (snd (restoreForm ?st)) ''mode'' = ''walking''" by blast
  moreover from restoreForm_precedence [OF tracked_members(6), of ?st "''x''"] q s
  have "field (snd (restoreForm ?st)) ''view'' = ''list''
      \<and> localStorage (snd (restoreForm ?st)) ''view'' = None"
    by simp
  ultimately show ?thesis by simp
qed

section \<open>Sharing the form\<close>

lemma map_of_filter_other:
  "n' \<noteq> n \<Longrightarrow> map_of (filter (\<lambda>other. fst other \<noteq> n) entries) n' = map_of entries n'"
  by (induction entries) auto

lemma usp_get_set:
  "usp_get (usp_set n v params) n' = (if n' = n then Some v else usp_get params n')"
proof (induction params)
  case Nil
  show ?case by (simp add: usp_get_def)
next
  case (Cons entry rest)
  then show ?case
    by (cases entry) (auto simp: usp_get_def map_of_filter_other)
qed

lemma shared_query:
  assumes "f \<in> set tracked"
  shows "usp_get (search (load_shared sharer fresh)) f =
           Some (if f = ''home'' then trim (field sharer ''home'') else field sharer f)"
  using assms by (auto simp: load_shared_def share_def usp_get_set tracked_def)

lemma home_tracked: "''home'' \<in> set tracked"
  by (simp add: tracked_def)

text \<open>
  C2, as the specification states it, fails: \<^verbatim>\<open>share\<close> trims the home field (line
  186), so a home value that starts with a space comes back without it.
\<close>

theorem share_round_trip_counterexample:
  "field (snd (restoreForm (load_shared (edit ''home'' '' x'' (blank ''list'')) (blank ''list'')))) ''home''
     \<noteq> field (edit ''home'' '' x'' (blank ''list'')) ''home''"
proof -
  have "usp_get (search (load_shared (edit ''home'' '' x'' (blank ''list'')) (blank ''list''))) ''home''
          = Some ''x''"
    by (simp add: load_shared_def share_def usp_get_def edit_def blank_def trim_def is_ws_def)
  then have "field (snd (restoreForm (load_shared (edit ''home'' '' x'' (blank ''list'')) (blank ''list'')))) ''home''
          = ''x''"
    using home_tracked by (simp add: restoreForm_field fold_setValue_field)
  moreover have "field (edit ''home'' '' x'' (blank ''list'')) ''home'' = '' x''"
    by (simp add: edit_def)
  ultimately show ?thesis by simp
qed

text \<open>
  C2, amended: for every value of the six tracked fields, loading the client with the
  shared URL gives each field but \<^verbatim>\<open>home\<close> the value it had, gives \<^verbatim>\<open>home\<close> the
  value it had trimmed, and stores each of the six under its name.
\<close>

theorem share_round_trip:
  assumes "f \<in> set tracked"
  shows "field (snd (restoreForm (load_shared sharer fresh))) f =
           (if f = ''home'' then trim (field sharer ''home'') else field sharer f)
       \<and> localStorage (snd (restoreForm (load_shared sharer fresh))) f =
           Some (if f = ''home'' then trim (field sharer ''home'') else field sharer f)"
  using assms shared_query [OF assms, of sharer fresh]
  by (simp add: restoreForm_field restoreForm_storage fold_setValue_field fold_setValue_storage)

text \<open>The amended C2 for a page shared with a padded home, two lines of places and the
  map view.\<close>

theorem share_round_trip_witness:
  "field (snd (restoreForm (load_shared
      (edit ''places'' ''Louvre\<newline>Orsay'' (edit ''home'' '' 1 rue A '' (blank ''map''))) (blank ''list'')))) ''places''
     = ''Louvre\<newline>Orsay''
   \<and> localStorage (snd (restoreForm (load_shared
      (edit ''places'' ''Louvre\<newline>Orsay'' (edit ''home'' '' 1 rue A '' (blank ''map''))) (blank ''list'')))) ''home''
     = Some ''1 rue A''
   \<and> field (snd (restoreForm (load_shared
      (edit ''places'' ''Louvre\<newline>Orsay'' (edit ''home'' '' 1 rue A '' (blank ''map''))) (blank ''list'')))) ''view''
     = ''map''"
proof -
  let ?sharer = "edit ''places'' ''Louvre\<newline>Orsay'' (edit ''home'' '' 1 rue A '' (blank ''map''))"
  have v: "field ?sharer ''places'' = ''Louvre\<newline>Orsay''" "field ?sharer ''view'' = ''map''"
    "trim (field ?sharer ''home'') = ''1 rue A''"
    by (simp_all add: edit_def blank_def trim_def is_ws_def)
  from share_round_trip [OF tracked_members(2), of ?sharer "blank ''list''"] v
  have "field (snd (restoreForm (load_shared ?sharer (blank ''list'')))) ''places'' = ''Louvre\<newline>Orsay''"
    by simp
  moreover from share_round_trip [OF tracked_members(1), of ?sharer "blank ''list''"] v
  have "localStorage (snd (restoreForm (load_shared ?sharer (blank ''list'')))) ''home'' = Some ''1 rue A''"
    by simp
  moreover from share_round_trip [OF tracked_members(6), of ?sharer "blank ''list''"] v
  have "field (snd (restoreForm (load_shared ?sharer (blank ''list'')))) ''view'' = ''map''"
    by simp
  ultimately show ?thesis by simp
qed

section \<open>A failed planning call\<close>

lemma build_payload_cleared:
  "build_payload (st\<lparr>list_innerHTML := a, mapFrame_src := b\<rparr>) = build_payload st"
  by (simp add: build_payload_def Let_def split: sum.splits)

lemma build_payload_blank:
  "\<exists>request. build_payload (blank view) = Inr request"
  by (simp add: build_payload_def Let_def blank_def parse_mandatory_def surviving_lines_def)

lemma build_payload_planned:
  "\<exists>request. build_payload (planned resp view) = Inr request"
  by (simp add: build_payload_def Let_def planned_def select_day_def populateDays_def blank_def
      parse_mandatory_def surviving_lines_def)

text \<open>
  C4, as the specification states it, fails: for the body \<^verbatim>\<open>bad address\<close> the alert is
  \<^verbatim>\<open>Planning failed: bad address\<close>, not the body alone.
\<close>

theorem plan_failure_alert_counterexample:
  "alerts (snd (plan Gated (\<lambda>request. NotOk ''bad address'') (blank ''list''))) \<noteq> [''bad address'']"
proof -
  obtain request where r: "build_payload (blank ''list'') = Inr request"
    using build_payload_blank by blast
  have "alerts (snd (plan Gated (\<lambda>request. NotOk ''bad address'') (blank ''list'')))
          = [''Planning failed: bad address'']"
    using r by (simp add: plan_def Let_def build_payload_cleared try_plan_def blank_def)
  then show ?thesis by simp
qed

text \<open>
  C4, amended: when the planning call, made with the payload built from the form, gives a
  response that is not ok with the body text \<open>m\<close>, \<^verbatim>\<open>plan\<close> raises nothing, shows one
  alert, which is \<^verbatim>\<open>Planning failed: \<close> followed by \<open>m\<close>, and leaves the last
  plan as it was.
\<close>

theorem plan_failure_alert:
  assumes "build_payload st = Inr request" and "fetch request = NotOk m"
  shows "fst (plan v fetch st) = None
       \<and> alerts (snd (plan v fetch st)) = alerts st @ [''Planning failed: '' @ m]
       \<and> lastPlan (snd (plan v fetch st)) = lastPlan st"
  using assms by (simp add: plan_def Let_def build_payload_cleared try_plan_def)

text \<open>The amended C4 on a page that holds a plan of two days.\<close>

theorem plan_failure_alert_witness:
  "fst (plan Gated (\<lambda>request. NotOk ''bad address'') (planned two_day_plan ''list'')) = None
   \<and> alerts (snd (plan Gated (\<lambda>request. NotOk ''bad address'') (planned two_day_plan ''list'')))
       = [''Planning failed: bad address'']
   \<and> lastPlan (snd (plan Gated (\<lambda>request. NotOk ''bad address'') (planned two_day_plan ''list'')))
       = Some two_day_plan"
proof -
  obtain request where r: "build_payload (planned two_day_plan ''list'') = Inr request"
    using build_payload_planned by blast
  have f: "(\<lambda>request. NotOk ''bad address'') request = NotOk ''bad address''" by simp
  from plan_failure_alert [OF r f, of Gated] show ?thesis
    by (simp add: planned_simps)
qed

section \<open>The list view\<close>

lemma scale_up_ge: "0 < x \<Longrightarrow> lo \<le> x * 2 ^ scale_up lo x"
proof (induction lo x rule: scale_up.induct)
  case (1 lo x)
  show ?case
  proof (cases "lo \<le> x")
    case True
    then show ?thesis by (simp add: scale_up.simps [of lo x])
  next
    case False
    with "1.prems" have "lo \<le> (2 * x) * 2 ^ scale_up lo (2 * x)"
      by (intro "1.IH") auto
    with False "1.prems" show ?thesis
      by (simp add: scale_up.simps [of lo x] mult.assoc)
  qed
qed

lemma round_half_even_near:
  assumes "0 < b"
  shows "2 * (b * round_half_even a b) \<le> 2 * a + b \<and> 2 * a \<le> 2 * (b * round_half_even a b) + b"
proof -
  define q where "q = a div b"
  define r where "r = a mod b"
  have a: "a = b * q + r" by (simp add: q_def r_def)
  have r: "r < b" using assms by (simp add: r_def)
  have "round_half_even a b = q \<and> 2 * r \<le> b \<or> round_half_even a b = q + 1 \<and> b \<le> 2 * r"
    by (auto simp: round_half_even_def Let_def q_def r_def)
  then show ?thesis
  proof
    assume "round_half_even a b = q \<and> 2 * r \<le> b"
    then show ?thesis using a by simp
  next
    assume h: "round_half_even a b = q + 1 \<and> b \<le> 2 * r"
    then have "b * round_half_even a b = b * q + b" by simp
    then show ?thesis using a r h by linarith
  qed
qed

lemma km_tenths_near:
  assumes "d < 2 ^ 53"
  shows "100 * km_tenths d \<le> d + 50 \<and> d \<le> 100 * km_tenths d + 50"
proof (cases "d = 0")
  case True
  then show ?thesis
    by (simp add: km_tenths_def km_mantissa_def km_shift_def round_half_even_def
        scale_up.simps [of _ 0])
next
  case False
  define P :: nat where "P = 2 ^ km_shift d"
  define m where "m = km_mantissa d"
  define t where "t = km_tenths d"
  define A where "A = d * P"
  define B where "B = P * t"
  have Ppos: "0 < P" by (simp add: P_def)
  have ge: "1000 * 2 ^ 52 \<le> A"
    using False scale_up_ge [of d "1000 * 2 ^ 52"] by (simp add: A_def P_def km_shift_def)
  have big: "500 < P"
  proof (rule ccontr)
    assume "\<not> 500 < P"
    then have "P \<le> 500" by simp
    then have "d * P \<le> d * 500" by (rule mult_le_mono2)
    with assms ge show False by (simp add: A_def)
  qed
  have "2 * (1000 * m) \<le> 2 * A + 1000 \<and> 2 * A \<le> 2 * (1000 * m) + 1000"
    using round_half_even_near [of 1000 A] by (simp add: m_def km_mantissa_def A_def P_def)
  then have m1: "1000 * m \<le> A + 500" and m2: "A \<le> 1000 * m + 500" by simp_all
  have t: "t = (20 * m + P) div (2 * P)"
    by (simp add: t_def km_tenths_def m_def P_def)
  have "(2 * P) * t \<le> 20 * m + P"
    unfolding t by (rule times_div_less_eq_dividend)
  then have t1: "2 * B \<le> 20 * m + P" by (simp add: B_def mult.assoc)
  have "20 * m + P < (2 * P) * t + 2 * P"
    unfolding t using Ppos dividend_less_times_div [of "2 * P" "20 * m + P"] by (simp add: add.commute)
  then have t2: "20 * m + P < 2 * B + 2 * P" by (simp add: B_def mult.assoc)
  have upper: "100 * t \<le> d + 50"
  proof (rule ccontr)
    assume "\<not> 100 * t \<le> d + 50"
    then have "d + 51 \<le> 100 * t" by simp
    then have "(d + 51) * P \<le> (100 * t) * P" by (rule mult_le_mono1)
    then have "A + 51 * P \<le> 100 * B" by (simp add: A_def B_def algebra_simps)
    with m1 t1 big show False by linarith
  qed
  have lower: "d \<le> 100 * t + 50"
  proof (rule ccontr)
    assume "\<not> d \<le> 100 * t + 50"
    then have "100 * t + 51 \<le> d" by simp
    then have "(100 * t + 51) * P \<le> d * P" by (rule mult_le_mono1)
    then have "100 * B + 51 * P \<le> A" by (simp add: A_def B_def algebra_simps)
    with m2 t2 big show False by linarith
  qed
  from upper lower show ?thesis by (simp add: t_def)
qed

lemmas km_eval = km_toFixed1_def km_tenths_def km_mantissa_def km_shift_def round_half_even_def
  scale_up.simps digits.simps

lemma km_toFixed1_example: "km_toFixed1 12345 = ''12.3''"
  by (simp add: km_eval)

lemma km_toFixed1_ties: 
  "km_toFixed1 150 = ''0.1''" "km_toFixed1 250 = ''0.3''" "km_toFixed1 1450 = ''1.4''"
  "km_toFixed1 99950 = ''100.0''" "km_toFixed1 1050 = ''1.1''"
  by (simp_all add: km_eval)

lemma two_day_blocks:
  "concat (map route_block (routes two_day_plan)) =
     [CHR 0x0A, CHR 0x09, CHR 0x09, CHR 0x09] @ ''<h2>Day 1</h2>'' @
     [CHR 0x0A, CHR 0x09, CHR 0x09, CHR 0x09] @ ''<ol><li>Louvre</li><li>Orsay</li></ol>'' @
     [CHR 0x0A, CHR 0x09, CHR 0x09, CHR 0x09] @ ''<p>12.3 km | 95 min</p>'' @
     [CHR 0x0A, CHR 0x09, CHR 0x09] @
     [CHR 0x0A, CHR 0x09, CHR 0x09, CHR 0x09] @ ''<h2>Day 2</h2>'' @
     [CHR 0x0A, CHR 0x09, CHR 0x09, CHR 0x09] @ ''<ol><li>Versailles</li></ol>'' @
     [CHR 0x0A, CHR 0x09, CHR 0x09, CHR 0x09] @ ''<p>20.1 km | 40 min</p>'' @
     [CHR 0x0A, CHR 0x09, CHR 0x09]"
  by (simp add: two_day_plan_def route_block_def day_label_def number_string_def km_eval)

text \<open>
  C8. The list region after \<^verbatim>\<open>renderList\<close> is one block per route, in route order,
  whatever it held before. A block has the heading \<^verbatim>\<open>Day N\<close> for a day \<open>N\<close> that
  is a number other than 0, and \<^verbatim>\<open>Route\<close> for a day that is null or 0 (both falsy);
  the places as list items in their order; and a summary of the kilometers with one
  decimal and the minutes. For a distance below \<open>2 ^ 53\<close> meters the number of tenths
  of a kilometer shown is a nearest one: it differs from the distance by 50 meters at
  most. 12345 meters are shown as \<^verbatim>\<open>12.3\<close>.
\<close>

theorem renderList_blocks:
  "list_innerHTML (renderList resp st) = concat (map route_block (routes resp))
   \<and> route_block info =
       [CHR 0x0A, CHR 0x09, CHR 0x09, CHR 0x09] @ ''<h2>'' @
         (case day info of
            None \<Rightarrow> ''Route''
          | Some n \<Rightarrow> if n = 0 then ''Route'' else ''Day '' @ number_string n) @ ''</h2>'' @
       [CHR 0x0A, CHR 0x09, CHR 0x09, CHR 0x09] @ ''<ol>'' @
         concat (map (\<lambda>place. ''<li>'' @ place @ ''</li>'') (places info)) @ ''</ol>'' @
       [CHR 0x0A, CHR 0x09, CHR 0x09, CHR 0x09] @ ''<p>'' @
         digits (km_tenths (distance_m info) div 10) @ ''.'' @
         digits (km_tenths (distance_m info) mod 10) @ '' km | '' @
         number_string (time_minutes info) @ '' min</p>'' @
       [CHR 0x0A, CHR 0x09, CHR 0x09]
   \<and> (distance_m info < 2 ^ 53 \<longrightarrow>
        100 * km_tenths (distance_m info) \<le> distance_m info + 50
        \<and> distance_m info \<le> 100 * km_tenths (distance_m info) + 50)
   \<and> km_toFixed1 12345 = ''12.3''"
proof (intro conjI impI)
  show "list_innerHTML (renderList resp st) = concat (map route_block (routes resp))"
    by (simp add: renderList_eq)
  show "route_block info =
       [CHR 0x0A, CHR 0x09, CHR 0x09, CHR 0x09] @ ''<h2>'' @
         (case day info of
            None \<Rightarrow> ''Route''
          | Some n \<Rightarrow> if n = 0 then ''Route'' else ''Day '' @ number_string n) @ ''</h2>'' @
       [CHR 0x0A, CHR 0x09, CHR 0x09, CHR 0x09] @ ''<ol>'' @
         concat (map (\<lambda>place. ''<li>'' @ place @ ''</li>'') (places info)) @ ''</ol>'' @
       [CHR 0x0A, CHR 0x09, CHR 0x09, CHR 0x09] @ ''<p>'' @
         digits (km_tenths (distance_m info) div 10) @ ''.'' @
         digits (km_tenths (distance_m info) mod 10) @ '' km | '' @
         number_string (time_minutes info) @ '' min</p>'' @
       [CHR 0x0A, CHR 0x09, CHR 0x09]"
    by (simp add: route_block_def day_label_def km_toFixed1_def split: option.splits)
  show "100 * km_tenths (distance_m info) \<le> distance_m info + 50"
    if "distance_m info < 2 ^ 53"
    using km_tenths_near [OF that] by simp
  show "distance_m info \<le> 100 * km_tenths (distance_m info) + 50"
    if "distance_m info < 2 ^ 53"
    using km_tenths_near [OF that] by simp
  show "km_toFixed1 12345 = ''12.3''"
    by (rule km_toFixed1_example)
qed

text \<open>C8 for the plan of two days, rendered over a page that showed another plan.\<close>

theorem renderList_blocks_witness:
  "list_innerHTML (renderList two_day_plan (planned undated_plan ''list'')) =
     [CHR 0x0A, CHR 0x09, CHR 0x09, CHR 0x09] @ ''<h2>Day 1</h2>'' @
     [CHR 0x0A, CHR 0x09, CHR 0x09, CHR 0x09] @ ''<ol><li>Louvre</li><li>Orsay</li></ol>'' @
     [CHR 0x0A, CHR 0x09, CHR 0x09, CHR 0x09] @ ''<p>12.3 km | 95 min</p>'' @
     [CHR 0x0A, CHR 0x09, CHR 0x09] @
     [CHR 0x0A, CHR 0x09, CHR 0x09, CHR 0x09] @ ''<h2>Day 2</h2>'' @
     [CHR 0x0A, CHR 0x09, CHR 0x09, CHR 0x09] @ ''<ol><li>Versailles</li></ol>'' @
     [CHR 0x0A, CHR 0x09, CHR 0x09, CHR 0x09] @ ''<p>20.1 km | 40 min</p>'' @
     [CHR 0x0A, CHR 0x09, CHR 0x09]
   \<and> (12345::nat) < 2 ^ 53
   \<and> 100 * km_tenths 12345 \<le> 12345 + 50 \<and> 12345 \<le> 100 * km_tenths 12345 + 50"
proof -
  let ?info = "\<lparr>day = Some 1, places = [''Louvre'', ''Orsay''], distance_m = 12345,
          time_minutes = 95, map_path = ''maps/1.html''\<rparr>"
  have d: "distance_m ?info = 12345" by simp
  have b: "(12345::nat) < 2 ^ 53" by simp
  from renderList_blocks [of two_day_plan "planned undated_plan ''list''" ?info] d b
  have "list_innerHTML (renderList two_day_plan (planned undated_plan ''list'')) =
          concat (map route_block (routes two_day_plan))
      \<and> 100 * km_tenths 12345 \<le> 12345 + 50 \<and> 12345 \<le> 100 * km_tenths 12345 + 50"
    by simp
  then show ?thesis using b by (simp only: two_day_blocks)
qed

end
